theory Spec2Isabelle
  imports
    Complex_Main
    "HOL-Library.Signed_Division"
    "HOL-Library.Char_ord"
    "HOL-Library.List_Lexorder"
    "HOL-Library.Multiset"
    "HOL-Library.Sublist"
begin

section \<open>sr_exhibit: the leaderboard cache key\<close>

text \<open>
  Go strings are byte sequences and \<^verbatim>\<open>a > b\<close> on strings compares them byte by byte,
  a proper prefix being smaller. \<^typ>\<open>string\<close> is a list of 8-bit characters; with
  \<^theory_text>\<open>Char_ord\<close> and \<^theory_text>\<open>List_Lexorder\<close> its order is that comparison.

  A Go \<^verbatim>\<open>map[string]string\<close> is modelled as an association list with distinct keys. The
  order of the list is the order in which \<^verbatim>\<open>for key := range m\<close> visits the keys, which Go
  leaves unspecified: two lists with the same set of pairs are the same Go map visited in
  two orders.
\<close>

type_synonym gomap = "(string \<times> string) list"

definition wf_gomap :: "gomap \<Rightarrow> bool" where
  "wf_gomap m = distinct (map fst m)"

text \<open>\<^verbatim>\<open>m[key]\<close>: the value stored under the key, the empty string when there is none.\<close>

definition index_gomap :: "gomap \<Rightarrow> string \<Rightarrow> string" where
  "index_gomap m key = (case map_of m key of None \<Rightarrow> [] | Some v \<Rightarrow> v)"

record CacheKey =
  GameID :: string
  GameName :: string
  CategoryID :: string
  CategoryName :: string
  Variables :: gomap

text \<open>\<^verbatim>\<open>strings.Join(parts, sep)\<close>.\<close>

fun Join :: "string list \<Rightarrow> string \<Rightarrow> string" where
  "Join [] sep = []"
| "Join [p] sep = p"
| "Join (p # q # ps) sep = p @ sep @ Join (q # ps) sep"

text \<open>
  The sort of \<^verbatim>\<open>CacheKey.String\<close> (called a bubble sort in the source), loop by loop:
  \<^verbatim>\<open>
  for i := 0; i < len(varVars); i++ {
      for j := i + 1; j < len(varVars); j++ {
          if varVars[i] > varVars[j] {
              varVars[i], varVars[j] = varVars[j], varVars[i]
          }
      }
  }
  \<close>
  \<open>sort_inner i j\<close> is the inner loop from the index \<open>j\<close> on, \<open>sort_outer i\<close> the outer loop
  from the index \<open>i\<close> on. Every index read is below the length.
\<close>

function sort_inner :: "nat \<Rightarrow> nat \<Rightarrow> 'a::linorder list \<Rightarrow> 'a list" where
  "sort_inner i j xs =
     (if j < length xs
      then sort_inner i (j + 1) (if xs ! i > xs ! j then xs[i := xs ! j, j := xs ! i] else xs)
      else xs)"
  by pat_completeness auto
termination
  by (relation "measure (\<lambda>(i, j, xs). length xs - j)") auto

declare sort_inner.simps [simp del]

lemma length_sort_inner: "length (sort_inner i j xs) = length xs"
  by (induction i j xs rule: sort_inner.induct) (subst sort_inner.simps, simp)

function sort_outer :: "nat \<Rightarrow> 'a::linorder list \<Rightarrow> 'a list" where
  "sort_outer i xs =
     (if i < length xs then sort_outer (i + 1) (sort_inner i (i + 1) xs) else xs)"
  by pat_completeness auto
termination
  by (relation "measure (\<lambda>(i, xs). length xs - i)") (auto simp: length_sort_inner)

declare sort_outer.simps [simp del]

text \<open>
  The invariant of the outer loop: the first \<open>i\<close> elements are in ascending order and none
  of them is above an element that follows them.
\<close>

definition sorted_upto :: "nat \<Rightarrow> 'a::linorder list \<Rightarrow> bool" where
  "sorted_upto i xs =
     (sorted (take i xs) \<and> (\<forall>a \<in> set (take i xs). \<forall>b \<in> set (drop i xs). a \<le> b))"

definition String :: "CacheKey \<Rightarrow> string" where
  "String k =
     (let parts = [GameID k, CategoryID k];
          parts' =
            (if length (Variables k) > 0
             then let varVars = map fst (Variables k);
                      varVars' = sort_outer 0 varVars
                  in parts @ map (\<lambda>key. key @ ''='' @ index_gomap (Variables k) key) varVars'
             else parts)
      in Join parts' ''_'')"

definition FileName :: "CacheKey \<Rightarrow> string" where
  "FileName k = String k @ ''.csv''"

section \<open>The data model (package models)\<close>

text \<open>
  Go structs are records. Field names that several structs share carry the struct's name.
  A pointer field that the code compares with \<^verbatim>\<open>nil\<close> is an \<open>option\<close>. A
  \<^verbatim>\<open>map[string]PlayerData\<close> is a map \<open>string \<rightharpoonup> PlayerData\<close>: the code only looks
  keys up and stores under keys.
\<close>

record Player =
  Player_Rel :: string
  Player_ID :: string
  Player_Name :: string

record NameStyleColor =
  Light :: string
  Dark :: string

record NameStyle =
  Style :: string
  ColorFrom :: "NameStyleColor option"
  ColorTo :: "NameStyleColor option"

text \<open>
  Modelled from the spec: \<^verbatim>\<open>models.Location\<close>. The function \<^verbatim>\<open>run\<close> of main.go reads
  \<^verbatim>\<open>PlayerData.Location\<close> and \<^verbatim>\<open>Location.Country\<close>, both pointers, but the declaration of the
  type is not among the sources (the models file there predates the field). The spec gives
  an entity record an optional country code, so the country is its code.
\<close>

record Location =
  Country :: "string option"

record PlayerData =
  PlayerData_Rel :: string
  PlayerData_ID :: string
  PlayerData_Name :: string
  PlayerData_NameStyle :: "NameStyle option"
  Names_International :: string
  PlayerData_Location :: "Location option"

text \<open>What a failing call returns. The message of a remote failure is opaque.\<close>

datatype error =
    CreateDirFailed
  | CreateFileFailed
  | OpenFailed
  | SerializeFailed
  | WriteFailed
  | RenameFailed
  | RemoteError string
  | GameNotFound string
  | IndexOutOfRange

section \<open>Files\<close>

text \<open>
  The file system is a map from paths to contents. A content is what a complete write
  put there: the JSON document of the player cache (determined by the map it serializes),
  or the list of CSV records of a leaderboard cache file, in the order written.
  \<open>Unknown\<close> is what a failed write may leave behind.

  Each function that touches files returns the list of file operations it performed, in
  order; \<open>run_ops\<close> replays such a list on a file system.
\<close>

record PlayerCacheItem =
  Data :: PlayerData
  CachedAt :: int

datatype content =
    PlayersJson "string \<rightharpoonup> PlayerCacheItem"
  | CsvRecords "string list list"
  | Unknown

type_synonym fs = "string \<rightharpoonup> content"

datatype fsop =
    OpMkdirAll string
  | OpWriteFile string content
  | OpRename string string
  | OpRemove string
  | OpCreate string
  | OpWriteRecord string "string list"
  | OpFailed fsop

fun op_target :: "fsop \<Rightarrow> string" where
  "op_target (OpMkdirAll d) = d"
| "op_target (OpWriteFile p c) = p"
| "op_target (OpRename a b) = b"
| "op_target (OpRemove p) = p"
| "op_target (OpCreate p) = p"
| "op_target (OpWriteRecord p r) = p"
| "op_target (OpFailed x) = op_target x"

fun run_op :: "fsop \<Rightarrow> fs \<Rightarrow> fs" where
  "run_op (OpMkdirAll d) f = f"
| "run_op (OpWriteFile p c) f = f(p \<mapsto> c)"
| "run_op (OpRename a b) f = (f(b := f a))(a := None)"
| "run_op (OpRemove p) f = f(p := None)"
| "run_op (OpCreate p) f = f(p \<mapsto> CsvRecords [])"
| "run_op (OpWriteRecord p r) f =
     (case f p of Some (CsvRecords rs) \<Rightarrow> f(p \<mapsto> CsvRecords (rs @ [r])) | _ \<Rightarrow> f(p \<mapsto> Unknown))"
| "run_op (OpFailed (OpWriteFile p c)) f = f(p \<mapsto> Unknown)"
| "run_op (OpFailed x) f = f"

definition run_ops :: "fsop list \<Rightarrow> fs \<Rightarrow> fs" where
  "run_ops ops f = fold run_op ops f"

text \<open>
  Which calls into the operating system succeed. \<^verbatim>\<open>json.MarshalIndent\<close> is among them: its
  failure is a branch of \<^verbatim>\<open>PlayerCache.Save\<close>.
\<close>

record io =
  marshal_ok :: bool
  write_ok :: bool
  rename_ok :: bool
  mkdir_ok :: bool
  create_ok :: bool
  open_ok :: bool

text \<open>\<^verbatim>\<open>filepath.Join(dir, name)\<close> for a directory and a file name without separators.\<close>

definition filepath_Join :: "string \<Rightarrow> string \<Rightarrow> string" where
  "filepath_Join d name = d @ ''/'' @ name"

section \<open>The player cache (cache/cache.go)\<close>

text \<open>
  A \<^verbatim>\<open>time.Time\<close> is its number of nanoseconds on the wall clock, a \<^verbatim>\<open>time.Duration\<close> the
  64-bit count of nanoseconds it is in Go. \<^verbatim>\<open>Time.Sub\<close> saturates: a difference outside the
  range of a Duration is the nearest bound.
\<close>

definition minDuration :: int where
  "minDuration = - (2 ^ 63)"

definition maxDuration :: int where
  "maxDuration = 2 ^ 63 - 1"

definition Second :: int where
  "Second = 1000000000"

definition DefaultTTL :: int where
  "DefaultTTL = 30 * 24 * (3600 * Second)"

definition Sub :: "int \<Rightarrow> int \<Rightarrow> int" where
  "Sub t u = (if t - u > maxDuration then maxDuration
              else if t - u < minDuration then minDuration else t - u)"

text \<open>\<^verbatim>\<open>time.Since(t)\<close>, the clock reading \<open>now\<close> at the call.\<close>

definition Since :: "int \<Rightarrow> int \<Rightarrow> int" where
  "Since now t = Sub now t"

record PlayerCache =
  dir :: string
  ttl :: int
  players :: "string \<rightharpoonup> PlayerCacheItem"
  dirty :: bool

definition cacheFileName :: string where
  "cacheFileName = ''players.json''"

definition filePath :: "PlayerCache \<Rightarrow> string" where
  "filePath c = filepath_Join (dir c) cacheFileName"

text \<open>
  Every method holds the mutex of the cache from its first statement to its return, so
  each is one atomic step on the state. \<open>Get\<close> returns the state as well: the source takes
  only the read lock and assigns nothing.
\<close>

definition Get :: "PlayerCache \<Rightarrow> int \<Rightarrow> string \<Rightarrow> PlayerData option \<times> PlayerCache" where
  "Get c now playerID =
     (case players c playerID of
        None \<Rightarrow> (None, c)
      | Some item \<Rightarrow>
          if Since now (CachedAt item) > ttl c then (None, c)
          else (Some (Data item), c))"

definition Set :: "PlayerCache \<Rightarrow> int \<Rightarrow> string \<Rightarrow> PlayerData \<Rightarrow> PlayerCache" where
  "Set c now playerID data =
     c\<lparr>players := (players c)(playerID \<mapsto> \<lparr>Data = data, CachedAt = now\<rparr>), dirty := True\<rparr>"

definition Save :: "io \<Rightarrow> PlayerCache \<Rightarrow> error option \<times> PlayerCache \<times> fsop list" where
  "Save sys c =
     (if \<not> dirty c then (None, c, [])
      else
        let path = filePath c in
        if \<not> marshal_ok sys then (Some SerializeFailed, c, [])
        else
          let data = PlayersJson (players c);
              tmpPath = path @ ''.tmp''
          in
          if \<not> write_ok sys then (Some WriteFailed, c, [OpFailed (OpWriteFile tmpPath data)])
          else if \<not> rename_ok sys
          then (Some RenameFailed, c,
                [OpWriteFile tmpPath data, OpFailed (OpRename tmpPath path), OpRemove tmpPath])
          else (None, c\<lparr>dirty := False\<rparr>, [OpWriteFile tmpPath data, OpRename tmpPath path]))"

section \<open>Numbers and their text (fmt.Sprintf, fmt.Sscanf)\<close>

text \<open>
  A finite \<^verbatim>\<open>float64\<close> is the rational number it denotes. \<open>float64_of_rat\<close> rounds a rational
  to the nearest such number, ties to the even significand: 53 significant bits, the
  exponent of the last bit no less than \<open>-1074\<close>. Infinities, NaN, the sign of zero and
  magnitudes from \<open>2^1024\<close> on are outside the model; the times of a leaderboard are finite
  and small. A float operation of the source is the exact operation followed by
  \<open>float64_of_rat\<close>.
\<close>

definition pow2 :: "int \<Rightarrow> rat" where
  "pow2 e = (if 0 \<le> e then 2 ^ nat e else 1 / 2 ^ nat (- e))"

fun bitlength :: "nat \<Rightarrow> nat" where
  "bitlength n = (if n = 0 then 0 else 1 + bitlength (n div 2))"

declare bitlength.simps [simp del]

definition floor_log2 :: "rat \<Rightarrow> int" where
  "floor_log2 x =
     (if 1 \<le> x then int (bitlength (nat \<lfloor>x\<rfloor>)) - 1
      else - int (bitlength (nat (\<lceil>1 / x\<rceil> - 1))))"

definition round_even :: "rat \<Rightarrow> int" where
  "round_even x =
     (let f = \<lfloor>x\<rfloor>; d = x - of_int f
      in if d < 1 / 2 then f else if 1 / 2 < d then f + 1 else if even f then f else f + 1)"

definition float64_of_rat :: "rat \<Rightarrow> rat" where
  "float64_of_rat x =
     (if x = 0 then 0
      else let e = max (floor_log2 \<bar>x\<bar> - 52) (- 1074);
               m = round_even (\<bar>x\<bar> / pow2 e)
           in sgn x * of_int m * pow2 e)"

text \<open>\<^verbatim>\<open>int(x)\<close> for a float \<open>x\<close>: the fraction is dropped (rounding towards zero).\<close>

definition trunc :: "rat \<Rightarrow> int" where
  "trunc x = (if 0 \<le> x then \<lfloor>x\<rfloor> else \<lceil>x\<rceil>)"

text \<open>
  \<^verbatim>\<open>fmt.Sprintf("%d", n)\<close> is \<open>fmt_d n\<close>, \<^verbatim>\<open>fmt.Sprintf("%.2f", x)\<close> is \<open>fmt_2f x\<close>: the exact value
  of \<open>x\<close> rounded to two decimals, a tie going to the even last digit.
\<close>

definition digit_char :: "nat \<Rightarrow> char" where
  "digit_char d = char_of (48 + d)"

fun fmt_nat :: "nat \<Rightarrow> string" where
  "fmt_nat n = (if n < 10 then [digit_char n] else fmt_nat (n div 10) @ [digit_char (n mod 10)])"

declare fmt_nat.simps [simp del]

definition fmt_d :: "int \<Rightarrow> string" where
  "fmt_d n = (if n < 0 then CHR ''-'' # fmt_nat (nat (- n)) else fmt_nat (nat n))"

definition fmt_2f :: "rat \<Rightarrow> string" where
  "fmt_2f x =
     (let n = nat (round_even (\<bar>x\<bar> * 100))
      in (if x < 0 then [CHR ''-''] else []) @ fmt_nat (n div 100) @ [CHR ''.''] @
         [digit_char (n mod 100 div 10), digit_char (n mod 10)])"

text \<open>
  \<^verbatim>\<open>fmt.Sscanf(s, "%d", &v)\<close> and \<^verbatim>\<open>fmt.Sscanf(s, "%f", &v)\<close> with \<open>v\<close> zero before the call and
  the error dropped, as \<^verbatim>\<open>Load\<close> calls them: an optional sign, then the longest run of
  decimal digits, for \<^verbatim>\<open>%f\<close> then a point and more digits; \<open>v\<close> stays zero when there is no
  digit. Leading blanks, digit separators, exponents, hexadecimal floats and numbers
  beyond 64 bits, which only a hand-edited file can hold, are outside the model.
\<close>

text \<open>The number that \<open>fmt_2f x\<close> writes down: \<open>x\<close> rounded to two decimals.\<close>

definition round_2f :: "rat \<Rightarrow> rat" where
  "round_2f x =
     (let n = round_even (\<bar>x\<bar> * 100)
      in if x < 0 then - (of_int n / 100) else of_int n / 100)"

definition is_digit :: "char \<Rightarrow> bool" where
  "is_digit c = (CHR ''0'' \<le> c \<and> c \<le> CHR ''9'')"

definition digit_val :: "char \<Rightarrow> nat" where
  "digit_val c = of_char c - 48"

definition digits_val :: "string \<Rightarrow> nat" where
  "digits_val ds = foldl (\<lambda>acc c. 10 * acc + digit_val c) 0 ds"

definition scan_sign :: "string \<Rightarrow> bool \<times> string" where
  "scan_sign s =
     (case s of
        [] \<Rightarrow> (False, s)
      | c # cs \<Rightarrow> if c = CHR ''-'' then (True, cs) else if c = CHR ''+'' then (False, cs) else (False, s))"

definition Sscanf_d :: "string \<Rightarrow> int" where
  "Sscanf_d s =
     (let (neg, rest) = scan_sign s;
          ds = takeWhile is_digit rest
      in if ds = [] then 0 else if neg then - int (digits_val ds) else int (digits_val ds))"

definition Sscanf_f :: "string \<Rightarrow> rat" where
  "Sscanf_f s =
     (let (neg, rest) = scan_sign s;
          ip = takeWhile is_digit rest;
          fp = (case dropWhile is_digit rest of
                  [] \<Rightarrow> []
                | c # cs \<Rightarrow> if c = CHR ''.'' then takeWhile is_digit cs else [])
      in if ip = [] \<and> fp = [] then 0
         else let v = of_nat (digits_val ip) + of_nat (digits_val fp) / 10 ^ length fp
              in float64_of_rat (if neg then - v else v))"

section \<open>Runs, games and leaderboards (package models, continued)\<close>

record VideoLink =
  URI :: string

record RunVideos =
  Links :: "VideoLink list"
  RunVideos_Text :: string

text \<open>
  \<^verbatim>\<open>RunTimes\<close> has four more optional fields (\<^verbatim>\<open>Realtime\<close>, \<^verbatim>\<open>RealtimeT\<close>, \<^verbatim>\<open>GameTime\<close>,
  \<^verbatim>\<open>GameTimeT\<close>) and \<^verbatim>\<open>Game\<close> has its \<^verbatim>\<open>Assets\<close>; no function modelled here reads or
  writes them.
\<close>

record RunTimes =
  Primary :: string
  PrimaryT :: rat

record RunData =
  RunData_ID :: string
  RunData_Players :: "Player list"
  Times :: RunTimes
  Videos :: "RunVideos option"
  Comment :: string
  Date :: string
  SubmitURL :: string
  Values :: gomap

record RunEntry =
  Place :: int
  Run :: RunData

record Game =
  Game_ID :: string
  Game_Names_International :: string
  Game_Names_Japanese :: string
  Abbreviation :: string
  WebLink :: string
  ReleaseDate :: string

record Category =
  Category_ID :: string
  Category_Name :: string
  Category_Type :: string

record LeaderboardData =
  LeaderboardData_Game :: string
  LeaderboardData_Category :: string
  Weblink :: string
  LeaderboardData_Runs :: "RunEntry list"
  LeaderboardData_Players :: "string \<rightharpoonup> PlayerData"

section \<open>The leaderboard cache (cache/leaderboard.go)\<close>

text \<open>
  Functions of the Go standard library that the model takes as parameters: the text of a
  time in the layout RFC 3339 and its parser (zero on a parse error), and the two
  case-insensitive string functions of the game search.
\<close>

record gostd =
  Format_RFC3339 :: "int \<Rightarrow> string"
  Parse_RFC3339 :: "string \<Rightarrow> int"
  EqualFold :: "string \<Rightarrow> string \<Rightarrow> bool"
  ToLower :: "string \<Rightarrow> string"

record LeaderboardCache =
  LeaderboardCache_dir :: string

record CachedLeaderboard =
  Key :: CacheKey
  CachedAt_of :: int
  Game_of :: Game
  Category_of :: Category
  Runs :: "RunEntry list"
  Players :: "string \<rightharpoonup> PlayerData"

definition GetFileName :: "LeaderboardCache \<Rightarrow> CacheKey \<Rightarrow> string" where
  "GetFileName c k = filepath_Join (LeaderboardCache_dir c) (FileName k)"

definition header_row :: "string list" where
  "header_row =
     [''rank'', ''player_id'', ''player_name'', ''time_seconds'',
      ''date'', ''submit_url'', ''run_id'', ''video_links'']"

text \<open>
  \<open>video_uris\<close> is the list \<^verbatim>\<open>videoLinks\<close> that \<^verbatim>\<open>Save\<close> collects from \<^verbatim>\<open>run.Run.Videos\<close>.
  The body of the loop over \<^verbatim>\<open>data.Runs\<close>: the inner loop over the players of the run ends
  at its first \<^verbatim>\<open>break\<close>, so a run gives one row, for its first player, and a run without
  players gives none.
\<close>

definition video_uris :: "RunData \<Rightarrow> string list" where
  "video_uris r = (case Videos r of None \<Rightarrow> [] | Some v \<Rightarrow> map URI (Links v))"

definition run_rows :: "(string \<rightharpoonup> PlayerData) \<Rightarrow> RunEntry \<Rightarrow> string list list" where
  "run_rows ps run =
     (case RunData_Players (Run run) of
        [] \<Rightarrow> []
      | player # _ \<Rightarrow>
          let playerName =
                (if Player_Rel player = ''user''
                 then (case ps (Player_ID player) of
                         Some pd \<Rightarrow>
                           if Names_International pd = [] then PlayerData_Name pd
                           else Names_International pd
                       | None \<Rightarrow> [])
                 else Player_Name player);
              playerID = (if Player_Rel player = ''user'' then Player_ID player else []);
              videoLinks = video_uris (Run run)
          in [[fmt_d (Place run),
               playerID,
               playerName,
               fmt_2f (PrimaryT (Times (Run run))),
               Date (Run run),
               SubmitURL (Run run),
               RunData_ID (Run run),
               Join videoLinks ''|'']])"

text \<open>The records that \<^verbatim>\<open>Save\<close> hands to the CSV writer, in order.\<close>

definition save_records :: "gostd \<Rightarrow> CachedLeaderboard \<Rightarrow> string list list" where
  "save_records lib data =
     [[''#META'', ''VERSION'', ''1''],
      [''#GAME'', GameID (Key data), GameName (Key data)],
      [''#CATEGORY'', CategoryID (Key data), CategoryName (Key data)],
      [''#CACHED_AT'', Format_RFC3339 lib (CachedAt_of data)]] @
     map (\<lambda>(key, v). [''#VARIABLE'', key, v]) (Variables (Key data)) @
     [header_row] @
     concat (map (run_rows (Players data)) (Runs data))"

text \<open>
  \<^verbatim>\<open>LeaderboardCache.Save\<close>. The file is created under its final name (\<^verbatim>\<open>os.Create\<close> empties
  a file that exists) and the records are written into it; the source drops the errors
  of the writer. The cache has no state besides its directory.
\<close>

definition LeaderboardCache_Save ::
  "io \<Rightarrow> gostd \<Rightarrow> LeaderboardCache \<Rightarrow> CachedLeaderboard \<Rightarrow> error option \<times> fsop list" where
  "LeaderboardCache_Save sys lib c data =
     (if \<not> mkdir_ok sys then (Some CreateDirFailed, [OpFailed (OpMkdirAll (LeaderboardCache_dir c))])
      else
        let path = GetFileName c (Key data) in
        if \<not> create_ok sys
        then (Some CreateFileFailed, [OpMkdirAll (LeaderboardCache_dir c), OpFailed (OpCreate path)])
        else (None,
              [OpMkdirAll (LeaderboardCache_dir c), OpCreate path] @
              map (OpWriteRecord path) (save_records lib data)))"

text \<open>\<^verbatim>\<open>strings.Split(s, sep)\<close> for a separator of one byte, as \<^verbatim>\<open>Load\<close> calls it.\<close>

fun Split :: "string \<Rightarrow> char \<Rightarrow> string list" where
  "Split [] sep = [[]]"
| "Split (c # cs) sep =
     (if c = sep then [] # Split cs sep
      else (case Split cs sep of
              [] \<Rightarrow> [[c]]
            | f # fs \<Rightarrow> (c # f) # fs))"

text \<open>\<^verbatim>\<open>m[key] = v\<close> on a Go map: the value under an old key is replaced, a new key is added.\<close>

fun gomap_set :: "gomap \<Rightarrow> string \<Rightarrow> string \<Rightarrow> gomap" where
  "gomap_set [] key v = [(key, v)]"
| "gomap_set ((k, w) # m) key v = (if k = key then (k, v) # m else (k, w) # gomap_set m key v)"

text \<open>
  The duration text that \<^verbatim>\<open>Load\<close> derives from the seconds it read. Go's \<^verbatim>\<open>/\<close> and \<^verbatim>\<open>%\<close> on
  integers round towards zero (\<open>sdiv\<close>, \<open>smod\<close>).
\<close>

definition hours_of :: "rat \<Rightarrow> int" where
  "hours_of primaryT = trunc primaryT sdiv 3600"

definition minutes_of :: "rat \<Rightarrow> int" where
  "minutes_of primaryT = (trunc primaryT smod 3600) sdiv 60"

definition seconds_of :: "rat \<Rightarrow> int" where
  "seconds_of primaryT = trunc primaryT smod 60"

definition millis_of :: "rat \<Rightarrow> int" where
  "millis_of primaryT =
     trunc (float64_of_rat
       (float64_of_rat (primaryT - float64_of_rat (of_int (trunc primaryT))) * 100))"

definition primary_of :: "rat \<Rightarrow> string" where
  "primary_of primaryT =
     (let hours = hours_of primaryT;
          minutes = minutes_of primaryT;
          seconds = seconds_of primaryT;
          millis = millis_of primaryT
      in if hours > 0
         then (if millis > 0
               then ''PT'' @ fmt_d hours @ ''H'' @ fmt_d minutes @ ''M'' @ fmt_d seconds @ ''.'' @
                    fmt_d millis @ ''S''
               else ''PT'' @ fmt_d hours @ ''H'' @ fmt_d minutes @ ''M'' @ fmt_d seconds @ ''S'')
         else (if millis > 0
               then ''PT'' @ fmt_d minutes @ ''M'' @ fmt_d seconds @ ''.'' @ fmt_d millis @ ''S''
               else ''PT'' @ fmt_d minutes @ ''M'' @ fmt_d seconds @ ''S''))"

text \<open>A data row of at least eight fields becomes a run.\<close>

definition parse_data_row :: "string list \<Rightarrow> RunEntry" where
  "parse_data_row record =
     (let place = Sscanf_d (record ! 0);
          primaryT = Sscanf_f (record ! 3);
          primary = primary_of primaryT;
          videoLinks = (if length record > 7 \<and> record ! 7 \<noteq> []
                        then map (\<lambda>link. \<lparr>URI = link\<rparr>) (Split (record ! 7) CHR ''|'')
                        else []);
          players = (if record ! 1 \<noteq> []
                     then [\<lparr>Player_Rel = ''user'', Player_ID = record ! 1, Player_Name = []\<rparr>]
                     else [\<lparr>Player_Rel = ''guest'', Player_ID = [], Player_Name = record ! 2\<rparr>])
      in \<lparr>Place = place,
          Run = \<lparr>RunData_ID = record ! 6,
                 RunData_Players = players,
                 Times = \<lparr>Primary = primary, PrimaryT = primaryT\<rparr>,
                 Videos = (if length videoLinks > 0
                           then Some \<lparr>Links = videoLinks, RunVideos_Text = []\<rparr> else None),
                 Comment = [],
                 Date = record ! 4,
                 SubmitURL = record ! 5,
                 Values = []\<rparr>\<rparr>)"

text \<open>
  The body of the read loop of \<^verbatim>\<open>Load\<close> for one record. \<^verbatim>\<open>record[1]\<close> on a metadata row of
  one field is an index out of range, a panic. \<open>result.Key.Variables\<close> is the map of the
  caller's key (a Go map is a reference), so the caller's key sees the same entries.
\<close>

definition load_record :: "gostd \<Rightarrow> string list \<Rightarrow> CachedLeaderboard \<Rightarrow> error + CachedLeaderboard" where
  "load_record lib record result =
     (if length record = 0 then Inr result
      else if prefix ''#'' (record ! 0) then
        (if record ! 0 = ''#META'' then Inr result
         else if record ! 0 = ''#GAME'' then
           (if length record < 2 then Inl IndexOutOfRange
            else Inr (result\<lparr>Game_of :=
                   (Game_of result)\<lparr>Game_ID := record ! 1,
                      Game_Names_International :=
                        (if length record > 2 then record ! 2
                         else Game_Names_International (Game_of result))\<rparr>\<rparr>))
         else if record ! 0 = ''#CATEGORY'' then
           (if length record < 2 then Inl IndexOutOfRange
            else Inr (result\<lparr>Category_of :=
                   (Category_of result)\<lparr>Category_ID := record ! 1,
                      Category_Name :=
                        (if length record > 2 then record ! 2
                         else Category_Name (Category_of result))\<rparr>\<rparr>))
         else if record ! 0 = ''#CACHED_AT'' then
           (if length record < 2 then Inl IndexOutOfRange
            else Inr (result\<lparr>CachedAt_of := Parse_RFC3339 lib (record ! 1)\<rparr>))
         else if record ! 0 = ''#VARIABLE'' then
           (if length record > 2
            then Inr (result\<lparr>Key :=
                   (Key result)\<lparr>Variables :=
                      gomap_set (Variables (Key result)) (record ! 1) (record ! 2)\<rparr>\<rparr>)
            else Inr result)
         else Inr result)
      else if record ! 0 = ''rank'' then Inr result
      else if length record \<ge> 8
      then Inr (result\<lparr>Runs := Runs result @ [parse_data_row record]\<rparr>)
      else Inr result)"

fun load_records ::
  "gostd \<Rightarrow> string list list \<Rightarrow> CachedLeaderboard \<Rightarrow> error + CachedLeaderboard" where
  "load_records lib [] result = Inr result"
| "load_records lib (record # rest) result =
     (case load_record lib record result of
        Inl e \<Rightarrow> Inl e
      | Inr result' \<Rightarrow> load_records lib rest result')"

text \<open>The value \<^verbatim>\<open>Load\<close> starts from.\<close>

definition load_init :: "CacheKey \<Rightarrow> CachedLeaderboard" where
  "load_init key =
     \<lparr>Key = key,
      CachedAt_of = 0,
      Game_of = \<lparr>Game_ID = GameID key, Game_Names_International = GameName key,
                  Game_Names_Japanese = [], Abbreviation = [], WebLink = [], ReleaseDate = []\<rparr>,
      Category_of = \<lparr>Category_ID = CategoryID key, Category_Name = CategoryName key,
                      Category_Type = []\<rparr>,
      Runs = [],
      Players = Map.empty\<rparr>"

text \<open>
  \<^verbatim>\<open>LeaderboardCache.Load\<close> on a file system: no file is \<open>Inr None\<close> (the source returns
  \<^verbatim>\<open>nil, nil\<close>). The CSV reader returns the records of a file that the CSV writer wrote, as
  written; this holds for fields without a carriage return before a line feed. What the
  reader makes of any other file is not modelled: such a file reads as no record.
\<close>

definition LeaderboardCache_Load ::
  "io \<Rightarrow> gostd \<Rightarrow> LeaderboardCache \<Rightarrow> CacheKey \<Rightarrow> fs \<Rightarrow>
     error + CachedLeaderboard option" where
  "LeaderboardCache_Load sys lib c key f =
     (case f (GetFileName c key) of
        None \<Rightarrow> Inr None
      | Some file \<Rightarrow>
          if \<not> open_ok sys then Inl OpenFailed
          else (case file of
                  CsvRecords rs \<Rightarrow>
                    (case load_records lib rs (load_init key) of
                       Inl e \<Rightarrow> Inl e
                     | Inr result \<Rightarrow> Inr (Some result))
                | _ \<Rightarrow> Inr (Some (load_init key))))"

text \<open>
  What loading gives back of a saved run, stated apart from the code: \<open>reloaded_as run run'\<close>
  relates a run that \<^verbatim>\<open>Save\<close> wrote a row for and the run that \<^verbatim>\<open>Load\<close> makes of the row.
  Place and run id are the same; the seconds are the float of the saved seconds rounded
  to two decimals, and the duration text is derived from them; the first entrant is
  kept when it is a user with an id; the video links are kept when none contains the
  separator and the list is not the single empty link.
\<close>

definition reloaded_as :: "RunEntry \<Rightarrow> RunEntry \<Rightarrow> bool" where
  "reloaded_as run run' =
     (Place run' = Place run \<and>
      RunData_ID (Run run') = RunData_ID (Run run) \<and>
      PrimaryT (Times (Run run')) = float64_of_rat (round_2f (PrimaryT (Times (Run run)))) \<and>
      Primary (Times (Run run')) = primary_of (PrimaryT (Times (Run run'))) \<and>
      (Player_Rel (hd (RunData_Players (Run run))) = ''user'' \<and>
       Player_ID (hd (RunData_Players (Run run))) \<noteq> [] \<longrightarrow>
         RunData_Players (Run run') =
           [\<lparr>Player_Rel = ''user'', Player_ID = Player_ID (hd (RunData_Players (Run run))),
             Player_Name = []\<rparr>]) \<and>
      ((\<forall>u \<in> set (video_uris (Run run)). CHR ''|'' \<notin> set u) \<and>
       video_uris (Run run) \<noteq> [[]] \<longrightarrow>
         video_uris (Run run') = video_uris (Run run)))"

section \<open>The remote client (api/client.go)\<close>

text \<open>
  The remote data source, as the client sees it: for each request, what \<^verbatim>\<open>doRequest\<close> makes
  of the answer, the decoded value or the message of the error (a status outside 2xx, a
  transport error or a cancelled context, a body that does not decode; a request that
  could not be built is counted with them). The client sends no request twice within
  one call, so a function of the request says all a call can observe.
\<close>

record remote =
  games_by_id :: "string \<Rightarrow> string + Game"
  games_by_name :: "string \<Rightarrow> string + Game list"
  games_page :: "nat \<Rightarrow> string + Game list"
  users_by_id :: "string \<Rightarrow> string + PlayerData"
  leaderboard_of :: "string \<Rightarrow> string \<Rightarrow> gomap \<Rightarrow> string + LeaderboardData"

text \<open>
  \<^verbatim>\<open>GetGames(ctx, offset)\<close> asks for at most 200 games from the offset on, and \<^verbatim>\<open>GetUser\<close>
  for one user.
\<close>

definition GetGames :: "remote \<Rightarrow> nat \<Rightarrow> error + Game list" where
  "GetGames rm offset = (case games_page rm offset of Inl e \<Rightarrow> Inl (RemoteError e) | Inr gs \<Rightarrow> Inr gs)"

definition GetUser :: "remote \<Rightarrow> string \<Rightarrow> error + PlayerData" where
  "GetUser rm userID = (case users_by_id rm userID of Inl e \<Rightarrow> Inl (RemoteError e) | Inr d \<Rightarrow> Inr d)"

text \<open>
  The loop of \<^verbatim>\<open>GetAllGames\<close> ends at the first page of fewer than 200 games or at the
  first error. A source that never sends a short page keeps it running: the result is
  then \<open>None\<close>.
\<close>

partial_function (option) GetAllGames_from ::
  "remote \<Rightarrow> Game list \<Rightarrow> nat \<Rightarrow> (error + Game list) option" where
  "GetAllGames_from rm allGames offset =
     (case GetGames rm offset of
        Inl e \<Rightarrow> Some (Inl e)
      | Inr games \<Rightarrow>
          if length games < 200 then Some (Inr (allGames @ games))
          else GetAllGames_from rm (allGames @ games) (offset + length games))"

definition GetAllGames :: "remote \<Rightarrow> (error + Game list) option" where
  "GetAllGames rm = GetAllGames_from rm [] 0"

text \<open>\<^verbatim>\<open>strings.Contains(s, substr)\<close>: \<open>substr\<close> starts at some position of \<open>s\<close>.\<close>

fun Contains :: "string \<Rightarrow> string \<Rightarrow> bool" where
  "Contains [] substr = (substr = [])"
| "Contains (c # cs) substr = (prefix substr (c # cs) \<or> Contains cs substr)"

text \<open>
  A \<^verbatim>\<open>for _, game := range games\<close> loop that returns the first game passing a test.
\<close>

primrec first_match :: "(Game \<Rightarrow> bool) \<Rightarrow> Game list \<Rightarrow> Game option" where
  "first_match P [] = None"
| "first_match P (game # games) = (if P game then Some game else first_match P games)"

definition SearchGameByName :: "gostd \<Rightarrow> remote \<Rightarrow> string \<Rightarrow> (error + Game) option" where
  "SearchGameByName lib rm name =
     (case games_by_id rm name of
        Inr game \<Rightarrow> Some (Inr game)
      | Inl _ \<Rightarrow>
          (case games_by_name rm name of
             Inl e \<Rightarrow> Some (Inl (RemoteError e))
           | Inr result \<Rightarrow>
               if length result > 0 then Some (Inr (result ! 0))
               else
                 (case GetAllGames rm of
                    None \<Rightarrow> None
                  | Some (Inl e) \<Rightarrow> Some (Inl e)
                  | Some (Inr games) \<Rightarrow>
                      (case first_match (\<lambda>game. EqualFold lib (Abbreviation game) name) games of
                         Some game \<Rightarrow> Some (Inr game)
                       | None \<Rightarrow>
                           (case first_match
                                   (\<lambda>game. Contains (ToLower lib (Game_Names_International game))
                                              (ToLower lib name)) games of
                              Some game \<Rightarrow> Some (Inr game)
                            | None \<Rightarrow> Some (Inl (GameNotFound name)))))))"

subsection \<open>GetLeaderboard\<close>

text \<open>
  The keys of the map \<^verbatim>\<open>playerIDs\<close>: the ids of the players with \<^verbatim>\<open>Rel == "user"\<close> of all
  runs, each once. Go visits the keys of a map in an unspecified order; the list has them
  in the order of their first occurrence. The loops below are functions of any list of
  ids.
\<close>

definition insert_key :: "string list \<Rightarrow> string \<Rightarrow> string list" where
  "insert_key ks k = (if k \<in> set ks then ks else ks @ [k])"

definition playerIDs_of :: "RunEntry list \<Rightarrow> string list" where
  "playerIDs_of runs =
     foldl insert_key []
       (map Player_ID
          (filter (\<lambda>p. Player_Rel p = ''user'') (concat (map (\<lambda>run. RunData_Players (Run run)) runs))))"

text \<open>
  When the clock is read: \<open>get_at id\<close> is the time at which the cache is asked for \<open>id\<close>,
  \<open>set_at id\<close> the time at which the fetched data of \<open>id\<close> is stored.
\<close>

record clock =
  get_at :: "string \<Rightarrow> int"
  set_at :: "string \<Rightarrow> int"

text \<open>
  The first loop over \<^verbatim>\<open>playerIDs\<close>: cache hits go into \<^verbatim>\<open>result.Data.Players\<close>, the other
  ids into \<^verbatim>\<open>idsToFetch\<close>. Without a cache every id is fetched.
\<close>

fun lookup_cached ::
  "PlayerCache option \<Rightarrow> clock \<Rightarrow> string list \<Rightarrow> (string \<rightharpoonup> PlayerData) \<times> string list \<Rightarrow>
     (string \<rightharpoonup> PlayerData) \<times> string list" where
  "lookup_cached pc clk [] acc = acc"
| "lookup_cached pc clk (playerID # rest) (ps, idsToFetch) =
     (case pc of
        None \<Rightarrow> lookup_cached pc clk rest (ps, idsToFetch @ [playerID])
      | Some c \<Rightarrow>
          (case fst (Get c (get_at clk playerID) playerID) of
             Some data \<Rightarrow> lookup_cached pc clk rest (ps(playerID \<mapsto> data), idsToFetch)
           | None \<Rightarrow> lookup_cached pc clk rest (ps, idsToFetch @ [playerID])))"

text \<open>
  The goroutines, one per id to fetch, at most ten of them past the semaphore at a time,
  and the loop that collects their results. A goroutine shares with the others the cache,
  which it changes in one locked step, and the channel of results; the ids are distinct,
  so neither the players collected nor the entries stored depend on the interleaving, and
  the model runs the goroutines one after the other. A failed fetch sends a result without
  data, which the collecting loop drops: nothing is printed and no error is kept.
\<close>

fun fetch_players ::
  "remote \<Rightarrow> clock \<Rightarrow> string list \<Rightarrow> (string \<rightharpoonup> PlayerData) \<times> PlayerCache option \<Rightarrow>
     (string \<rightharpoonup> PlayerData) \<times> PlayerCache option" where
  "fetch_players rm clk [] acc = acc"
| "fetch_players rm clk (playerID # rest) (ps, pc) =
     (case GetUser rm playerID of
        Inr data \<Rightarrow>
          fetch_players rm clk rest
            (ps(playerID \<mapsto> data), map_option (\<lambda>c. Set c (set_at clk playerID) playerID data) pc)
      | Inl e \<Rightarrow> fetch_players rm clk rest (ps, pc))"

text \<open>What \<^verbatim>\<open>GetLeaderboard\<close> returns, the cache after it, its lines on stderr, its file operations.\<close>

definition GetLeaderboard ::
  "io \<Rightarrow> remote \<Rightarrow> clock \<Rightarrow> PlayerCache option \<Rightarrow> string \<Rightarrow> string \<Rightarrow> gomap \<Rightarrow>
     (error + LeaderboardData) \<times> PlayerCache option \<times> string list \<times> fsop list" where
  "GetLeaderboard sys rm clk pc gameID categoryID varFilters =
     (case leaderboard_of rm gameID categoryID varFilters of
        Inl e \<Rightarrow> (Inl (RemoteError e), pc, [], [])
      | Inr data \<Rightarrow>
          if LeaderboardData_Players data \<noteq> Map.empty then (Inr data, pc, [], [])
          else
            let playerIDs = playerIDs_of (LeaderboardData_Runs data);
                (hits, idsToFetch) = lookup_cached pc clk playerIDs (Map.empty, []);
                (ps, pc') = fetch_players rm clk idsToFetch (hits, pc)
            in (case pc' of
                  None \<Rightarrow> (Inr (data\<lparr>LeaderboardData_Players := ps\<rparr>), None, [], [])
                | Some c \<Rightarrow>
                    (case Save sys c of
                       (None, c', ops) \<Rightarrow>
                         (Inr (data\<lparr>LeaderboardData_Players := ps\<rparr>), Some c', [], ops)
                     | (Some e, c', ops) \<Rightarrow>
                         (Inr (data\<lparr>LeaderboardData_Players := ps\<rparr>), Some c',
                          [''Warning: Failed to save cache''], ops))))"

section \<open>Filling in the players of a cached leaderboard (run, main.go)\<close>

text \<open>
  The state of the loop over \<^verbatim>\<open>playerIDs\<close> in the branches of \<^verbatim>\<open>run\<close> that use the
  leaderboard cache: the map \<^verbatim>\<open>cachedData.Players\<close> being filled, the player cache
  (\<open>None\<close> when \<^verbatim>\<open>NewPlayerCache\<close> failed) and the lines printed.
\<close>

record merge_state =
  merged :: "string \<rightharpoonup> PlayerData"
  playerCache :: "PlayerCache option"
  stdout :: "string list"
  stderr :: "string list"

text \<open>
  \<^verbatim>\<open>data.Location.Country = basePlayer.Location.Country\<close>, after \<^verbatim>\<open>data.Location\<close> was made to
  point to an empty \<^verbatim>\<open>Location\<close> if it was \<^verbatim>\<open>nil\<close>.
\<close>

definition override_country :: "PlayerData \<Rightarrow> string \<Rightarrow> PlayerData" where
  "override_country data country =
     data\<lparr>PlayerData_Location :=
       Some ((case PlayerData_Location data of None \<Rightarrow> \<lparr>Country = None\<rparr> | Some l \<Rightarrow> l)
               \<lparr>Country := Some country\<rparr>)\<rparr>"

text \<open>The country code of a record of the leaderboard cache, if it has one.\<close>

definition country_of :: "PlayerData option \<Rightarrow> string option" where
  "country_of p =
     (case p of
        None \<Rightarrow> None
      | Some d \<Rightarrow> (case PlayerData_Location d of None \<Rightarrow> None | Some l \<Rightarrow> Country l))"

text \<open>
  One turn of the loop. \<open>data\<close> is a pointer into the player cache (\<^verbatim>\<open>Get\<close> returns
  \<^verbatim>\<open>&item.Data\<close>), so the assignment to the country changes the entry of the cache as
  well; the cache is not marked dirty by it.
\<close>

definition merge_player ::
  "remote \<Rightarrow> clock \<Rightarrow> (string \<rightharpoonup> PlayerData) \<Rightarrow> string \<Rightarrow> merge_state \<Rightarrow> merge_state" where
  "merge_player rm clk leaderboardPlayers playerID st =
     (let cached =
            (case playerCache st of
               None \<Rightarrow> None
             | Some c \<Rightarrow>
                 (case fst (Get c (get_at clk playerID) playerID) of
                    None \<Rightarrow> None
                  | Some data \<Rightarrow> Some (c, data)))
      in case cached of
           Some (c, data) \<Rightarrow>
             (case country_of (leaderboardPlayers playerID) of
                Some country \<Rightarrow>
                  st\<lparr>merged := (merged st)(playerID \<mapsto> override_country data country),
                     playerCache :=
                       Some (c\<lparr>players := (players c)(playerID \<mapsto>
                               \<lparr>Data = override_country data country,
                                CachedAt = CachedAt (the (players c playerID))\<rparr>)\<rparr>)\<rparr>
              | None \<Rightarrow> st\<lparr>merged := (merged st)(playerID \<mapsto> data)\<rparr>)
         | None \<Rightarrow>
             (case leaderboardPlayers playerID of
                Some basePlayer \<Rightarrow> st\<lparr>merged := (merged st)(playerID \<mapsto> basePlayer)\<rparr>
              | None \<Rightarrow>
                  (let st' = st\<lparr>stdout := stdout st @ [''  Fetching player data: '' @ playerID]\<rparr>
                   in case GetUser rm playerID of
                        Inr playerData \<Rightarrow>
                          st'\<lparr>merged := (merged st')(playerID \<mapsto> playerData),
                              playerCache :=
                                map_option (\<lambda>c. Set c (set_at clk playerID) playerID playerData)
                                  (playerCache st')\<rparr>
                      | Inl e \<Rightarrow>
                          st'\<lparr>stderr := stderr st' @
                                [''Warning: Failed to fetch player '' @ playerID]\<rparr>)))"

text \<open>The loop, for the order \<open>ids\<close> in which Go visits the keys of \<^verbatim>\<open>playerIDs\<close>.\<close>

fun merge_players ::
  "remote \<Rightarrow> clock \<Rightarrow> (string \<rightharpoonup> PlayerData) \<Rightarrow> string list \<Rightarrow> merge_state \<Rightarrow> merge_state" where
  "merge_players rm clk leaderboardPlayers [] st = st"
| "merge_players rm clk leaderboardPlayers (playerID # rest) st =
     merge_players rm clk leaderboardPlayers rest
       (merge_player rm clk leaderboardPlayers playerID st)"

text \<open>
  The cache branch of \<^verbatim>\<open>run\<close> from the loaded snapshot to the leaderboard handed to the
  generator: the players of the snapshot are set aside as \<^verbatim>\<open>leaderboardPlayers\<close>, the map
  is filled again by the loop, and the player cache is saved.
\<close>

definition fill_players ::
  "io \<Rightarrow> remote \<Rightarrow> clock \<Rightarrow> PlayerCache option \<Rightarrow> CachedLeaderboard \<Rightarrow>
     LeaderboardData \<times> PlayerCache option \<times> string list \<times> string list \<times> fsop list" where
  "fill_players sys rm clk pc cachedData =
     (let playerIDs = playerIDs_of (Runs cachedData);
          leaderboardPlayers = Players cachedData;
          st = merge_players rm clk leaderboardPlayers playerIDs
                 \<lparr>merged = Map.empty, playerCache = pc, stdout = [], stderr = []\<rparr>;
          (pc', warn, ops) =
            (case playerCache st of
               None \<Rightarrow> (None, [], [])
             | Some c \<Rightarrow>
                 (case Save sys c of
                    (None, c', ops) \<Rightarrow> (Some c', [], ops)
                  | (Some e, c', ops) \<Rightarrow> (Some c', [''Warning: Failed to save cache''], ops)))
      in (\<lparr>LeaderboardData_Game = Game_ID (Game_of cachedData),
           LeaderboardData_Category = Category_ID (Category_of cachedData),
           Weblink = [],
           LeaderboardData_Runs = Runs cachedData,
           LeaderboardData_Players = merged st\<rparr>,
          pc', stdout st, stderr st @ warn, ops))"

section \<open>Example data\<close>

text \<open>
  An instance of the library parameters, for evaluating the model on examples: a time is
  written as its decimal number, and letters are folded in ASCII only.
\<close>

definition ascii_lower :: "char \<Rightarrow> char" where
  "ascii_lower c =
     (if CHR ''A'' \<le> c \<and> c \<le> CHR ''Z'' then char_of (of_char c + (32 :: nat)) else c)"

definition example_std :: gostd where
  "example_std =
     \<lparr>Format_RFC3339 = fmt_d,
      Parse_RFC3339 = Sscanf_d,
      EqualFold = (\<lambda>a b. map ascii_lower a = map ascii_lower b),
      ToLower = map ascii_lower\<rparr>"

definition all_ok :: io where
  "all_ok = \<lparr>marshal_ok = True, write_ok = True, rename_ok = True, mkdir_ok = True,
             create_ok = True, open_ok = True\<rparr>"

text \<open>
  The snapshot of the cache file shown in the repository's notes, with a second run by a
  guest whose time has three decimals. The times are the floats nearest to 1491.04 and to
  1503.367.
\<close>

definition example_key :: CacheKey where
  "example_key =
     \<lparr>GameID = ''o1y9j9v6'', GameName = ''Celeste'', CategoryID = ''7kjpl1gk'',
      CategoryName = ''Any%'', Variables = [(''e8m7em86'', ''9qj7z0oq'')]\<rparr>"

definition example_player :: PlayerData where
  "example_player =
     \<lparr>PlayerData_Rel = ''user'', PlayerData_ID = ''8rpk9dgj'', PlayerData_Name = [],
      PlayerData_NameStyle = Some \<lparr>Style = ''solid'',
        ColorFrom = Some \<lparr>Light = ''#ff6b6b'', Dark = ''#ff6b6b''\<rparr>, ColorTo = None\<rparr>,
      Names_International = ''secureaccount'',
      PlayerData_Location = Some \<lparr>Country = Some ''us''\<rparr>\<rparr>"

definition example_time1 :: rat where
  "example_time1 = float64_of_rat (149104 / 100)"

definition example_time2 :: rat where
  "example_time2 = float64_of_rat (1503367 / 1000)"

definition example_run1 :: RunEntry where
  "example_run1 =
     \<lparr>Place = 1,
      Run = \<lparr>RunData_ID = ''mr5p4e2y'',
             RunData_Players = [\<lparr>Player_Rel = ''user'', Player_ID = ''8rpk9dgj'', Player_Name = []\<rparr>],
             Times = \<lparr>Primary = ''PT24M51.040S'', PrimaryT = example_time1\<rparr>,
             Videos = Some \<lparr>Links = [\<lparr>URI = ''https://www.youtube.com/watch?v=0fT1lHHQ0xs''\<rparr>],
                             RunVideos_Text = []\<rparr>,
             Comment = [],
             Date = ''2026-02-02'',
             SubmitURL = [],
             Values = [(''e8m7em86'', ''9qj7z0oq'')]\<rparr>\<rparr>"

definition example_run2 :: RunEntry where
  "example_run2 =
     \<lparr>Place = 2,
      Run = \<lparr>RunData_ID = ''zq1x7k3m'',
             RunData_Players = [\<lparr>Player_Rel = ''guest'', Player_ID = [], Player_Name = ''Ann''\<rparr>],
             Times = \<lparr>Primary = ''PT25M3.367S'', PrimaryT = example_time2\<rparr>,
             Videos = None,
             Comment = [],
             Date = ''2026-02-03'',
             SubmitURL = [],
             Values = [(''e8m7em86'', ''9qj7z0oq'')]\<rparr>\<rparr>"

definition example_snapshot :: CachedLeaderboard where
  "example_snapshot =
     \<lparr>Key = example_key,
      CachedAt_of = 0,
      Game_of = \<lparr>Game_ID = ''o1y9j9v6'', Game_Names_International = ''Celeste'',
                  Game_Names_Japanese = [], Abbreviation = ''celeste'', WebLink = [],
                  ReleaseDate = ''2018-01-25''\<rparr>,
      Category_of = \<lparr>Category_ID = ''7kjpl1gk'', Category_Name = ''Any%'',
                      Category_Type = ''per-game''\<rparr>,
      Runs = [example_run1, example_run2],
      Players = [''8rpk9dgj'' \<mapsto> example_player]\<rparr>"

definition example_cache :: LeaderboardCache where
  "example_cache = \<lparr>LeaderboardCache_dir = ''.cache''\<rparr>"

text \<open>The example snapshot saved into an empty directory and loaded again.\<close>

definition example_reloaded :: "error + CachedLeaderboard option" where
  "example_reloaded =
     LeaderboardCache_Load all_ok example_std example_cache example_key
       (run_ops (snd (LeaderboardCache_Save all_ok example_std example_cache example_snapshot))
          Map.empty)"

definition run_times :: "RunEntry list \<Rightarrow> rat list" where
  "run_times rs = map (\<lambda>run. PrimaryT (Times (Run run))) rs"

definition loaded_runs :: "error + CachedLeaderboard option \<Rightarrow> RunEntry list option" where
  "loaded_runs r = (case r of Inr (Some c) \<Rightarrow> Some (Runs c) | _ \<Rightarrow> None)"

definition loaded_player :: "error + CachedLeaderboard option \<Rightarrow> string \<Rightarrow> PlayerData option" where
  "loaded_player r playerID = (case r of Inr (Some c) \<Rightarrow> Players c playerID | _ \<Rightarrow> None)"

fun is_rename :: "fsop \<Rightarrow> bool" where
  "is_rename (OpRename a b) = True"
| "is_rename _ = False"

definition example_player_cache :: PlayerCache where
  "example_player_cache =
     \<lparr>dir = ''.cache'', ttl = DefaultTTL,
      players = [''8rpk9dgj'' \<mapsto> \<lparr>Data = example_player, CachedAt = 0\<rparr>],
      dirty = True\<rparr>"

definition example_now :: int where
  "example_now = 1770535660 * Second"

definition stale_item :: PlayerCacheItem where
  "stale_item = \<lparr>Data = example_player, CachedAt = example_now - DefaultTTL - Second\<rparr>"

definition fresh_item :: PlayerCacheItem where
  "fresh_item = \<lparr>Data = example_player, CachedAt = example_now - DefaultTTL + Second\<rparr>"

definition ttl_cache :: PlayerCache where
  "ttl_cache =
     \<lparr>dir = ''.cache'', ttl = DefaultTTL,
      players = [''old'' \<mapsto> stale_item, ''new'' \<mapsto> fresh_item],
      dirty = False\<rparr>"

(*MODEL-END*)

section \<open>Properties of the cache key\<close>

subsection \<open>The sort of \<open>CacheKey.String\<close> sorts\<close>

lemma mset_sort_inner:
  "i < length xs \<Longrightarrow> mset (sort_inner i j xs) = mset xs"
proof (induction i j xs rule: sort_inner.induct)
  case (1 i j xs)
  show ?case
  proof (cases "j < length xs")
    case True
    let ?ys = "if xs ! i > xs ! j then xs[i := xs ! j, j := xs ! i] else xs"
    have len: "length ?ys = length xs" by simp
    have "mset ?ys = mset xs"
      using True "1.prems" by (simp add: mset_swap)
    moreover have "mset (sort_inner i (j + 1) ?ys) = mset ?ys"
      using "1.IH" [OF True] "1.prems" len by simp
    ultimately show ?thesis
      using True by (subst sort_inner.simps) simp
  next
    case False
    then show ?thesis by (subst sort_inner.simps) simp
  qed
qed

lemma take_sort_inner:
  "i < j \<Longrightarrow> take i (sort_inner i j xs) = take i xs"
proof (induction i j xs rule: sort_inner.induct)
  case (1 i j xs)
  show ?case
  proof (cases "j < length xs")
    case True
    let ?ys = "if xs ! i > xs ! j then xs[i := xs ! j, j := xs ! i] else xs"
    have "take i ?ys = take i xs"
      using "1.prems" by simp
    moreover have "take i (sort_inner i (j + 1) ?ys) = take i ?ys"
      using "1.IH" [OF True] "1.prems" by simp
    ultimately show ?thesis
      using True by (subst sort_inner.simps) simp
  next
    case False
    then show ?thesis by (subst sort_inner.simps) simp
  qed
qed

lemma sort_inner_least:
  "i < j \<Longrightarrow> \<forall>k. i < k \<and> k < j \<longrightarrow> xs ! i \<le> xs ! k \<Longrightarrow>
   i < k \<Longrightarrow> k < length xs \<Longrightarrow> sort_inner i j xs ! i \<le> sort_inner i j xs ! k"
proof (induction i j xs arbitrary: k rule: sort_inner.induct)
  case (1 i j xs)
  show ?case
  proof (cases "j < length xs")
    case True
    let ?ys = "if xs ! i > xs ! j then xs[i := xs ! j, j := xs ! i] else xs"
    have len: "length ?ys = length xs" by simp
    have inv: "\<forall>k. i < k \<and> k < j + 1 \<longrightarrow> ?ys ! i \<le> ?ys ! k"
    proof (intro allI impI)
      fix m assume m: "i < m \<and> m < j + 1"
      show "?ys ! i \<le> ?ys ! m"
      proof (cases "m = j")
        case True
        then show ?thesis using \<open>j < length xs\<close> "1.prems"(1) by auto
      next
        case False
        then have "m < j" using m by simp
        then have "xs ! i \<le> xs ! m" using "1.prems"(2) m by simp
        then show ?thesis using \<open>m < j\<close> m \<open>j < length xs\<close> "1.prems"(1) by auto
      qed
    qed
    have "sort_inner i (j + 1) ?ys ! i \<le> sort_inner i (j + 1) ?ys ! k"
      using "1.IH" [OF True _ inv "1.prems"(3)] "1.prems" len by simp
    then show ?thesis
      using True by (subst (1 2) sort_inner.simps) simp
  next
    case False
    have "sort_inner i j xs = xs"
      using False by (subst sort_inner.simps) simp
    moreover have "k < j" using False "1.prems" by simp
    ultimately show ?thesis using "1.prems" by simp
  qed
qed

lemma mset_drop_sort_inner:
  assumes "i < j" "i < length xs"
  shows "mset (drop i (sort_inner i j xs)) = mset (drop i xs)"
proof -
  let ?ys = "sort_inner i j xs"
  have "mset (take i ?ys) + mset (drop i ?ys) = mset (take i xs) + mset (drop i xs)"
    using mset_sort_inner [OF assms(2), of j]
    by (metis append_take_drop_id mset_append)
  then show ?thesis
    using take_sort_inner [OF assms(1), of xs] by simp
qed

lemma sorted_upto_step:
  assumes inv: "sorted_upto i xs" and i: "i < length xs"
  shows "sorted_upto (i + 1) (sort_inner i (i + 1) xs)"
proof -
  let ?ys = "sort_inner i (i + 1) xs"
  have len: "length ?ys = length xs" by (rule length_sort_inner)
  have tk: "take i ?ys = take i xs" by (rule take_sort_inner) simp
  have dr: "set (drop i ?ys) = set (drop i xs)"
    using mset_drop_sort_inner [of i "i + 1" xs] i by (metis lessI Suc_eq_plus1 set_mset_mset)
  have tk1: "take (i + 1) ?ys = take i xs @ [?ys ! i]"
    using i len tk by (simp add: take_Suc_conv_app_nth)
  have yi: "?ys ! i \<in> set (drop i xs)"
    using dr i len by (metis Cons_nth_drop_Suc list.set_intros(1))
  have least: "\<forall>b \<in> set (drop (i + 1) ?ys). ?ys ! i \<le> b"
  proof
    fix b assume "b \<in> set (drop (i + 1) ?ys)"
    then obtain m where m: "m < length ?ys - (i + 1)" "b = drop (i + 1) ?ys ! m"
      by (metis in_set_conv_nth length_drop)
    then have "b = ?ys ! (i + 1 + m)" by simp
    moreover have "?ys ! i \<le> ?ys ! (i + 1 + m)"
    proof (rule sort_inner_least)
      show "i < i + 1" by simp
      show "\<forall>k. i < k \<and> k < i + 1 \<longrightarrow> xs ! i \<le> xs ! k" by auto
      show "i < i + 1 + m" by simp
      show "i + 1 + m < length xs" using m(1) len by simp
    qed
    ultimately show "?ys ! i \<le> b" by simp
  qed
  have sub: "set (drop (i + 1) ?ys) \<subseteq> set (drop i xs)"
    using dr by (metis Suc_eq_plus1 set_drop_subset_set_drop le_add1)
  have "sorted (take (i + 1) ?ys)"
    unfolding tk1 using inv yi by (auto simp: sorted_upto_def sorted_append)
  moreover have "\<forall>a \<in> set (take (i + 1) ?ys). \<forall>b \<in> set (drop (i + 1) ?ys). a \<le> b"
    unfolding tk1 using inv least sub by (auto simp: sorted_upto_def)
  ultimately show ?thesis by (simp add: sorted_upto_def)
qed

lemma sorted_sort_outer_aux:
  "sorted_upto i xs \<Longrightarrow> sorted (sort_outer i xs)"
proof (induction i xs rule: sort_outer.induct)
  case (1 i xs)
  show ?case
  proof (cases "i < length xs")
    case True
    have "sorted (sort_outer (i + 1) (sort_inner i (i + 1) xs))"
      using "1.IH" [OF True] sorted_upto_step [OF "1.prems" True] by simp
    then show ?thesis using True by (subst sort_outer.simps) simp
  next
    case False
    then have "sort_outer i xs = xs" by (subst sort_outer.simps) simp
    moreover have "take i xs = xs" using False by simp
    ultimately show ?thesis using "1.prems" by (simp add: sorted_upto_def)
  qed
qed

lemma mset_sort_outer: "mset (sort_outer i xs) = mset xs"
proof (induction i xs rule: sort_outer.induct)
  case (1 i xs)
  show ?case
  proof (cases "i < length xs")
    case True
    then show ?thesis
      using "1.IH" [OF True] mset_sort_inner [OF True, of "i + 1"]
      by (subst sort_outer.simps) simp
  next
    case False
    then show ?thesis by (subst sort_outer.simps) simp
  qed
qed

lemma sorted_sort_outer: "sorted (sort_outer 0 xs)"
  by (rule sorted_sort_outer_aux) (simp add: sorted_upto_def)

lemma sort_outer_unique:
  assumes "distinct xs" "distinct ys" "set xs = set ys"
  shows "sort_outer 0 xs = sort_outer 0 ys"
proof (rule sorted_distinct_set_unique)
  show "sorted (sort_outer 0 xs)" "sorted (sort_outer 0 ys)"
    by (rule sorted_sort_outer)+
  show "distinct (sort_outer 0 xs)"
    using assms(1) mset_sort_outer [of 0 xs] by (metis mset_eq_imp_distinct_iff)
  show "distinct (sort_outer 0 ys)"
    using assms(2) mset_sort_outer [of 0 ys] by (metis mset_eq_imp_distinct_iff)
  show "set (sort_outer 0 xs) = set (sort_outer 0 ys)"
    using assms(3) mset_sort_outer [of 0 xs] mset_sort_outer [of 0 ys] by (metis set_mset_mset)
qed

lemma sort_outer_eq_sort: "distinct xs \<Longrightarrow> sort_outer 0 xs = sort xs"
  by (metis sorted_sort_outer mset_sort_outer properties_for_sort)

subsection \<open>The canonical string\<close>

lemma String_canonical:
  assumes "wf_gomap vs"
  shows "String (k\<lparr>Variables := vs\<rparr>) =
     Join ([GameID k, CategoryID k] @
           map (\<lambda>key. key @ ''='' @ index_gomap vs key) (sort (map fst vs))) ''_''"
proof (cases vs)
  case Nil
  then show ?thesis by (simp add: String_def)
next
  case (Cons p ps)
  have "sort_outer 0 (map fst vs) = sort (map fst vs)"
    using assms by (simp add: wf_gomap_def sort_outer_eq_sort)
  then show ?thesis using Cons by (simp add: String_def Let_def)
qed

lemma index_gomap_cong:
  assumes "wf_gomap vs" "wf_gomap ws" "set vs = set ws"
  shows "index_gomap vs = index_gomap ws"
proof -
  have "map_of vs = map_of ws"
    using assms by (simp add: wf_gomap_def map_of_inject_set)
  then show ?thesis by (simp add: index_gomap_def fun_eq_iff)
qed

text \<open>
  Claim C4. Two filter sets holding the same key/value pairs, visited in any two orders,
  give the same string for the same game and category ids; that string is the two ids
  followed by the pairs \<open>key=value\<close> in ascending order of the keys, joined by \<open>_\<close>.
\<close>

theorem C4_String_order_independent:
  assumes "wf_gomap vs" "wf_gomap ws" "set vs = set ws"
  shows "String (k\<lparr>Variables := vs\<rparr>) = String (k\<lparr>Variables := ws\<rparr>) \<and>
         String (k\<lparr>Variables := vs\<rparr>) =
           Join ([GameID k, CategoryID k] @
                 map (\<lambda>key. key @ ''='' @ index_gomap vs key) (sort (map fst vs))) ''_''"
proof -
  have keys: "set (map fst vs) = set (map fst ws)"
    using assms(3) by simp
  have "sort (map fst vs) = sort (map fst ws)"
  proof (rule sorted_distinct_set_unique)
    show "distinct (sort (map fst vs))" "distinct (sort (map fst ws))"
      using assms(1,2) by (simp_all add: wf_gomap_def)
    show "set (sort (map fst vs)) = set (sort (map fst ws))"
      using keys by simp
  qed simp_all
  then show ?thesis
    using String_canonical [OF assms(1), of k] String_canonical [OF assms(2), of k]
      index_gomap_cong [OF assms]
    by simp
qed

theorem C4_String_order_independent_witness:
  "wf_gomap [(''b'', ''2''), (''a'', ''1'')] \<and> wf_gomap [(''a'', ''1''), (''b'', ''2'')] \<and>
   set [(''b'', ''2''), (''a'', ''1'')] = set [(''a'', ''1''), (''b'', ''2'')] \<and>
   String \<lparr>GameID = ''sms'', GameName = ''Super Mario Sunshine'', CategoryID = ''any'',
     CategoryName = ''Any%'', Variables = [(''b'', ''2''), (''a'', ''1'')]\<rparr> =
   String \<lparr>GameID = ''sms'', GameName = ''Super Mario Sunshine'', CategoryID = ''any'',
     CategoryName = ''Any%'', Variables = [(''a'', ''1''), (''b'', ''2'')]\<rparr> \<and>
   String \<lparr>GameID = ''sms'', GameName = ''Super Mario Sunshine'', CategoryID = ''any'',
     CategoryName = ''Any%'', Variables = [(''b'', ''2''), (''a'', ''1'')]\<rparr> = ''sms_any_a=1_b=2''"
proof -
  have w1: "wf_gomap [(''b'', ''2''), (''a'', ''1'')]" by (simp add: wf_gomap_def)
  have w2: "wf_gomap [(''a'', ''1''), (''b'', ''2'')]" by (simp add: wf_gomap_def)
  have s: "set [(''b'', ''2''), (''a'', ''1'')] = set [(''a'', ''1''), (''b'', ''2'')]" by auto
  note r = C4_String_order_independent [OF w1 w2 s,
        of "\<lparr>GameID = ''sms'', GameName = ''Super Mario Sunshine'', CategoryID = ''any'',
             CategoryName = ''Any%'', Variables = []\<rparr>"]
  have a: "String \<lparr>GameID = ''sms'', GameName = ''Super Mario Sunshine'', CategoryID = ''any'',
     CategoryName = ''Any%'', Variables = [(''b'', ''2''), (''a'', ''1'')]\<rparr> =
   String \<lparr>GameID = ''sms'', GameName = ''Super Mario Sunshine'', CategoryID = ''any'',
     CategoryName = ''Any%'', Variables = [(''a'', ''1''), (''b'', ''2'')]\<rparr>"
    using r by simp
  have b: "String \<lparr>GameID = ''sms'', GameName = ''Super Mario Sunshine'', CategoryID = ''any'',
     CategoryName = ''Any%'', Variables = [(''b'', ''2''), (''a'', ''1'')]\<rparr> = ''sms_any_a=1_b=2''"
    using conjunct2 [OF r] by (simp add: index_gomap_def)
  show ?thesis using w1 w2 s a b by blast
qed

text \<open>
  Claim C5, as stated, fails: every pair of the filter set is part of the string, so a second
  pair beside \<open>9dq73k2q=mln1yv32\<close> gives a longer string.
\<close>

theorem C5_extra_pair_counterexample:
  "String \<lparr>GameID = ''sms'', GameName = ''Super Mario Sunshine'', CategoryID = ''any'',
     CategoryName = ''Any%'',
     Variables = [(''9dq73k2q'', ''mln1yv32''), (''e8m7em86'', ''9qj7z0oq'')]\<rparr>
   = ''sms_any_9dq73k2q=mln1yv32_e8m7em86=9qj7z0oq'' \<and>
   String \<lparr>GameID = ''sms'', GameName = ''Super Mario Sunshine'', CategoryID = ''any'',
     CategoryName = ''Any%'',
     Variables = [(''9dq73k2q'', ''mln1yv32''), (''e8m7em86'', ''9qj7z0oq'')]\<rparr>
   \<noteq> ''sms_any_9dq73k2q=mln1yv32''"
  by (simp add: String_def index_gomap_def sort_outer.simps sort_inner.simps)

text \<open>
  Claim C5, amended. A key whose filter set is the single pair \<open>9dq73k2q=mln1yv32\<close> has
  the string \<open><game id>_<category id>_9dq73k2q=mln1yv32\<close>. A filter set that holds the
  pair among others gives the two ids followed by all its pairs in ascending key order,
  whatever the insertion order, and \<open>9dq73k2q=mln1yv32\<close> is one of the joined parts.
\<close>

theorem C5_String_single_pair:
  "String (k\<lparr>Variables := [(''9dq73k2q'', ''mln1yv32'')]\<rparr>) =
     GameID k @ ''_'' @ CategoryID k @ ''_9dq73k2q=mln1yv32'' \<and>
   (wf_gomap vs \<longrightarrow> (''9dq73k2q'', ''mln1yv32'') \<in> set vs \<longrightarrow>
      String (k\<lparr>Variables := vs\<rparr>) =
        Join ([GameID k, CategoryID k] @
              map (\<lambda>key. key @ ''='' @ index_gomap vs key) (sort (map fst vs))) ''_'' \<and>
      ''9dq73k2q=mln1yv32'' \<in>
        set (map (\<lambda>key. key @ ''='' @ index_gomap vs key) (sort (map fst vs))))"
proof (intro conjI impI)
  show "String (k\<lparr>Variables := [(''9dq73k2q'', ''mln1yv32'')]\<rparr>) =
     GameID k @ ''_'' @ CategoryID k @ ''_9dq73k2q=mln1yv32''"
    by (simp add: String_def index_gomap_def sort_outer.simps sort_inner.simps)
next
  assume wf: "wf_gomap vs"
  then show "String (k\<lparr>Variables := vs\<rparr>) =
        Join ([GameID k, CategoryID k] @
              map (\<lambda>key. key @ ''='' @ index_gomap vs key) (sort (map fst vs))) ''_''"
    by (rule String_canonical)
next
  assume wf: "wf_gomap vs" and mem: "(''9dq73k2q'', ''mln1yv32'') \<in> set vs"
  have "map_of vs ''9dq73k2q'' = Some ''mln1yv32''"
    using wf mem by (simp add: wf_gomap_def)
  then have idx: "index_gomap vs ''9dq73k2q'' = ''mln1yv32''"
    by (simp add: index_gomap_def)
  have "''9dq73k2q'' \<in> set (sort (map fst vs))"
    using mem by force
  then have "''9dq73k2q'' @ ''='' @ index_gomap vs ''9dq73k2q'' \<in>
        (\<lambda>key. key @ ''='' @ index_gomap vs key) ` set (sort (map fst vs))"
    by (rule imageI)
  then show "''9dq73k2q=mln1yv32'' \<in>
        set (map (\<lambda>key. key @ ''='' @ index_gomap vs key) (sort (map fst vs)))"
    using idx by simp
qed

theorem C5_String_single_pair_witness:
  "String \<lparr>GameID = ''sms'', GameName = ''Super Mario Sunshine'', CategoryID = ''any'',
     CategoryName = ''Any%'', Variables = [(''9dq73k2q'', ''mln1yv32'')]\<rparr>
     = ''sms_any_9dq73k2q=mln1yv32'' \<and>
   wf_gomap [(''e8m7em86'', ''9qj7z0oq''), (''9dq73k2q'', ''mln1yv32'')] \<and>
   (''9dq73k2q'', ''mln1yv32'') \<in> set [(''e8m7em86'', ''9qj7z0oq''), (''9dq73k2q'', ''mln1yv32'')] \<and>
   String \<lparr>GameID = ''sms'', GameName = ''Super Mario Sunshine'', CategoryID = ''any'',
     CategoryName = ''Any%'',
     Variables = [(''e8m7em86'', ''9qj7z0oq''), (''9dq73k2q'', ''mln1yv32'')]\<rparr>
     = ''sms_any_9dq73k2q=mln1yv32_e8m7em86=9qj7z0oq''"
proof -
  have w: "wf_gomap [(''e8m7em86'', ''9qj7z0oq''), (''9dq73k2q'', ''mln1yv32'')]"
    by (simp add: wf_gomap_def)
  show ?thesis
    using w
      C5_String_single_pair [of "\<lparr>GameID = ''sms'', GameName = ''Super Mario Sunshine'',
          CategoryID = ''any'', CategoryName = ''Any%'', Variables = []\<rparr>"
        "[(''e8m7em86'', ''9qj7z0oq''), (''9dq73k2q'', ''mln1yv32'')]"]
    by (simp add: index_gomap_def)
qed

text \<open>
  Claim C10. \<open>String\<close> is not injective: nothing escapes \<open>_\<close> or \<open>=\<close> inside an id, so a
  category id \<open>c_a=b\<close> with no filter and a category id \<open>c\<close> with the filter \<open>a=b\<close>
  have the same string and the same file name.
\<close>

theorem C10_String_not_injective:
  "\<exists>k1 k2. wf_gomap (Variables k1) \<and> wf_gomap (Variables k2) \<and>
     GameID k1 = GameID k2 \<and> CategoryID k1 \<noteq> CategoryID k2 \<and>
     set (Variables k1) \<noteq> set (Variables k2) \<and>
     String k1 = String k2 \<and> FileName k1 = FileName k2"
proof (intro exI conjI)
  let ?k1 = "\<lparr>GameID = ''g'', GameName = ''G'', CategoryID = ''c_a=b'', CategoryName = ''C'',
               Variables = []\<rparr>"
  let ?k2 = "\<lparr>GameID = ''g'', GameName = ''G'', CategoryID = ''c'', CategoryName = ''C'',
               Variables = [(''a'', ''b'')]\<rparr>"
  show "wf_gomap (Variables ?k1)" "wf_gomap (Variables ?k2)" by (simp_all add: wf_gomap_def)
  show "GameID ?k1 = GameID ?k2" by simp
  show "CategoryID ?k1 \<noteq> CategoryID ?k2" by simp
  show "set (Variables ?k1) \<noteq> set (Variables ?k2)" by simp
  show s: "String ?k1 = String ?k2"
    by (simp add: String_def index_gomap_def sort_outer.simps sort_inner.simps)
  show "FileName ?k1 = FileName ?k2" using s by (simp add: FileName_def)
qed

section \<open>Properties of the number formats\<close>

lemma is_digit_digit_char: "d < 10 \<Longrightarrow> is_digit (digit_char d)"
  unfolding is_digit_def digit_char_def less_eq_char_def
  by (simp add: of_char_of)

lemma digit_val_digit_char: "d < 10 \<Longrightarrow> digit_val (digit_char d) = d"
  by (simp add: digit_val_def digit_char_def)

lemma fmt_nat_digits: "\<forall>c \<in> set (fmt_nat n). is_digit c"
proof (induction n rule: fmt_nat.induct)
  case (1 n)
  show ?case
  proof (cases "n < 10")
    case True
    then show ?thesis by (subst fmt_nat.simps) (simp add: is_digit_digit_char)
  next
    case False
    then show ?thesis
      using "1.IH" by (subst fmt_nat.simps) (simp add: is_digit_digit_char)
  qed
qed

lemma fmt_nat_nonempty: "fmt_nat n \<noteq> []"
  by (subst fmt_nat.simps) simp

lemma digits_val_snoc: "digits_val (ds @ [c]) = 10 * digits_val ds + digit_val c"
  by (simp add: digits_val_def)

lemma digits_val_fmt_nat: "digits_val (fmt_nat n) = n"
proof (induction n rule: fmt_nat.induct)
  case (1 n)
  show ?case
  proof (cases "n < 10")
    case True
    then show ?thesis
      by (subst fmt_nat.simps) (simp add: digits_val_def digit_val_digit_char)
  next
    case False
    then show ?thesis
      using "1.IH" by (subst fmt_nat.simps) (simp add: digits_val_snoc digit_val_digit_char)
  qed
qed

lemma takeWhile_fmt_nat: "takeWhile is_digit (fmt_nat n) = fmt_nat n"
  using fmt_nat_digits by (simp add: takeWhile_eq_all_conv)

lemma not_digit_signs: "\<not> is_digit CHR ''-''" "\<not> is_digit CHR ''+''" "\<not> is_digit CHR ''.''"
  "\<not> is_digit CHR ''#''" "\<not> is_digit CHR ''r''" "\<not> is_digit CHR ''H''" "\<not> is_digit CHR ''|''"
  by (simp_all add: is_digit_def less_eq_char_def)

lemma scan_sign_fmt_nat: "scan_sign (fmt_nat n) = (False, fmt_nat n)"
proof (cases "fmt_nat n")
  case Nil
  then show ?thesis by (simp add: scan_sign_def)
next
  case (Cons c cs)
  then have "is_digit c" using fmt_nat_digits [of n] by simp
  then have "c \<noteq> CHR ''-''" "c \<noteq> CHR ''+''" using not_digit_signs by auto
  then show ?thesis using Cons by (simp add: scan_sign_def)
qed

lemma Sscanf_d_fmt_d: "Sscanf_d (fmt_d n) = n"
proof (cases "n < 0")
  case True
  then show ?thesis
    by (simp add: Sscanf_d_def fmt_d_def scan_sign_def takeWhile_fmt_nat fmt_nat_nonempty
        digits_val_fmt_nat)
next
  case False
  then show ?thesis
    by (simp add: Sscanf_d_def fmt_d_def scan_sign_fmt_nat takeWhile_fmt_nat fmt_nat_nonempty
        digits_val_fmt_nat)
qed

section \<open>Properties of the leaderboard cache\<close>

subsection \<open>Reading what \<open>Save\<close> wrote, record by record\<close>

lemma load_records_append:
  "load_records lib (xs @ ys) st =
     (case load_records lib xs st of Inl e \<Rightarrow> Inl e | Inr st' \<Rightarrow> load_records lib ys st')"
  by (induction xs arbitrary: st) (auto split: sum.splits)

lemma load_variable_rows:
  "\<exists>st'. load_records lib (map (\<lambda>(key, v). [''#VARIABLE'', key, v]) vs) st = Inr st' \<and>
         Runs st' = Runs st"
proof (induction vs arbitrary: st)
  case Nil
  then show ?case by simp
next
  case (Cons p vs)
  obtain k v where p: "p = (k, v)" by (cases p)
  let ?st1 = "st\<lparr>Key := (Key st)\<lparr>Variables := gomap_set (Variables (Key st)) k v\<rparr>\<rparr>"
  have "load_record lib [''#VARIABLE'', k, v] st = Inr ?st1"
    by (simp add: load_record_def)
  moreover obtain st' where "load_records lib (map (\<lambda>(key, v). [''#VARIABLE'', key, v]) vs) ?st1 = Inr st'"
      "Runs st' = Runs ?st1"
    using Cons.IH [of ?st1] by blast
  ultimately show ?case using p by simp
qed

lemma load_prologue:
  "\<exists>st'. load_records lib
       ([[''#META'', ''VERSION'', ''1''], [''#GAME'', g, gn], [''#CATEGORY'', c, cn],
         [''#CACHED_AT'', t]] @
        map (\<lambda>(key, v). [''#VARIABLE'', key, v]) vs @ [header_row]) st = Inr st' \<and>
       Runs st' = Runs st"
proof -
  let ?st4 = "st\<lparr>Game_of := (Game_of st)\<lparr>Game_ID := g, Game_Names_International := gn\<rparr>,
                  Category_of := (Category_of st)\<lparr>Category_ID := c, Category_Name := cn\<rparr>,
                  CachedAt_of := Parse_RFC3339 lib t\<rparr>"
  have a: "load_records lib [[''#META'', ''VERSION'', ''1''], [''#GAME'', g, gn],
      [''#CATEGORY'', c, cn], [''#CACHED_AT'', t]] st = Inr ?st4"
    by (simp add: load_record_def)
  obtain st5 where b: "load_records lib (map (\<lambda>(key, v). [''#VARIABLE'', key, v]) vs) ?st4 = Inr st5"
    and r5: "Runs st5 = Runs ?st4"
    using load_variable_rows [of lib vs ?st4] by blast
  have c: "load_records lib [header_row] st5 = Inr st5"
    by (simp add: load_record_def header_row_def)
  have "load_records lib
       ([[''#META'', ''VERSION'', ''1''], [''#GAME'', g, gn], [''#CATEGORY'', c, cn],
         [''#CACHED_AT'', t]] @
        map (\<lambda>(key, v). [''#VARIABLE'', key, v]) vs @ [header_row]) st = Inr st5"
    using a b c by (simp only: load_records_append sum.case)
  then show ?thesis using r5 by auto
qed

lemma hd_fmt_d: "fmt_d n \<noteq> [] \<and> (is_digit (hd (fmt_d n)) \<or> hd (fmt_d n) = CHR ''-'')"
proof (cases "n < 0")
  case True
  then show ?thesis by (simp add: fmt_d_def)
next
  case False
  then show ?thesis
    using fmt_nat_digits [of "nat n"] fmt_nat_nonempty [of "nat n"]
    by (cases "fmt_nat (nat n)") (auto simp: fmt_d_def)
qed

lemma fmt_d_not_meta: "\<not> prefix ''#'' (fmt_d n)" "fmt_d n \<noteq> ''rank''"
  using hd_fmt_d [of n] not_digit_signs by (cases "fmt_d n"; auto)+

lemma load_data_row:
  assumes "length row \<ge> 8" "row ! 0 = fmt_d n"
  shows "load_record lib row st = Inr (st\<lparr>Runs := Runs st @ [parse_data_row row]\<rparr>)"
  using assms fmt_d_not_meta [of n] by (auto simp: load_record_def)

lemma load_run_rows:
  "load_records lib (run_rows ps run) st =
     Inr (st\<lparr>Runs := Runs st @ map parse_data_row (run_rows ps run)\<rparr>)"
proof (cases "RunData_Players (Run run)")
  case Nil
  then show ?thesis by (simp add: run_rows_def)
next
  case (Cons p ps')
  then obtain row where row: "run_rows ps run = [row]" "length row = 8" "row ! 0 = fmt_d (Place run)"
    by (simp add: run_rows_def Let_def)
  then show ?thesis
    using load_data_row [of row "Place run" lib st] by simp
qed

lemma load_all_run_rows:
  "load_records lib (concat (map (run_rows ps) runs)) st =
     Inr (st\<lparr>Runs := Runs st @ map parse_data_row (concat (map (run_rows ps) runs))\<rparr>)"
proof (induction runs arbitrary: st)
  case Nil
  then show ?case by simp
next
  case (Cons run runs)
  show ?case
    by (simp add: load_records_append load_run_rows Cons.IH)
qed

lemma load_save_records:
  "\<exists>result. load_records lib (save_records lib d) (load_init key) = Inr result \<and>
     Runs result = map parse_data_row (concat (map (run_rows (Players d)) (Runs d)))"
proof -
  let ?pro = "[[''#META'', ''VERSION'', ''1''], [''#GAME'', GameID (Key d), GameName (Key d)],
      [''#CATEGORY'', CategoryID (Key d), CategoryName (Key d)],
      [''#CACHED_AT'', Format_RFC3339 lib (CachedAt_of d)]] @
     map (\<lambda>(key, v). [''#VARIABLE'', key, v]) (Variables (Key d)) @ [header_row]"
  let ?rows = "concat (map (run_rows (Players d)) (Runs d))"
  obtain st1 where p: "load_records lib ?pro (load_init key) = Inr st1"
    and r: "Runs st1 = Runs (load_init key)"
    using load_prologue by blast
  have s: "save_records lib d = ?pro @ ?rows"
    by (simp add: save_records_def)
  have "load_records lib (?pro @ ?rows) (load_init key) =
      (case load_records lib ?pro (load_init key) of
         Inl e \<Rightarrow> Inl e | Inr st' \<Rightarrow> load_records lib ?rows st')"
    by (rule load_records_append)
  also have "\<dots> = load_records lib ?rows st1"
    by (simp only: p sum.case)
  also have "\<dots> = Inr (st1\<lparr>Runs := Runs st1 @ map parse_data_row ?rows\<rparr>)"
    by (rule load_all_run_rows)
  finally have "load_records lib (save_records lib d) (load_init key) =
      Inr (st1\<lparr>Runs := Runs st1 @ map parse_data_row ?rows\<rparr>)"
    unfolding s .
  then show ?thesis using r by (auto simp: load_init_def)
qed

subsection \<open>Numbers and video links survive their text\<close>

lemma round_even_nonneg: "0 \<le> x \<Longrightarrow> 0 \<le> round_even x"
  by (auto simp: round_even_def Let_def)

lemma Sscanf_f_fmt_2f: "Sscanf_f (fmt_2f x) = float64_of_rat (round_2f x)"
proof -
  define n where "n = nat (round_even (\<bar>x\<bar> * 100))"
  have n_int: "(of_int (round_even (\<bar>x\<bar> * 100)) :: rat) = of_nat n"
    using round_even_nonneg [of "\<bar>x\<bar> * 100"] by (simp add: n_def)
  define q where "q = fmt_nat (n div 100)"
  define d1 where "d1 = digit_char (n mod 100 div 10)"
  define d2 where "d2 = digit_char (n mod 10)"
  have dig: "is_digit d1" "is_digit d2"
    by (simp_all add: d1_def d2_def is_digit_digit_char)
  have val: "digits_val [d1, d2] = n mod 100"
  proof -
    have "digits_val [d1, d2] = 10 * (n mod 100 div 10) + n mod 10"
      by (simp add: digits_val_def d1_def d2_def digit_val_digit_char)
    also have "n mod 10 = n mod 100 mod 10"
      by (simp add: mod_mod_cancel)
    finally show ?thesis by simp
  qed
  have qd: "\<forall>c \<in> set q. is_digit c" "q \<noteq> []"
    by (simp_all add: q_def fmt_nat_digits fmt_nat_nonempty)
  have tw: "takeWhile is_digit (q @ CHR ''.'' # [d1, d2]) = q"
    using qd(1) not_digit_signs(3) by (simp add: takeWhile_append2)
  have dw: "dropWhile is_digit (q @ CHR ''.'' # [d1, d2]) = CHR ''.'' # [d1, d2]"
    using qd(1) not_digit_signs(3) by (simp add: dropWhile_append2)
  have fp: "takeWhile is_digit [d1, d2] = [d1, d2]"
    using dig by simp
  have qv: "digits_val q = n div 100"
    by (simp add: q_def digits_val_fmt_nat)
  have v: "(of_nat (n div 100) :: rat) + of_nat (n mod 100) / 10 ^ 2 = of_nat n / 100"
  proof -
    have "(of_nat n :: rat) = of_nat (100 * (n div 100) + n mod 100)" by simp
    also have "\<dots> = 100 * of_nat (n div 100) + of_nat (n mod 100)"
      by (simp only: of_nat_add of_nat_mult of_nat_numeral)
    finally show ?thesis by (simp add: field_simps)
  qed
  then have v1: "(of_nat (n div 100) :: rat) + of_nat (n mod 100) / 100 = of_nat n / 100"
    by simp
  then have v2: "- (of_nat (n div 100) :: rat) - of_nat (n mod 100) / 100 = - (of_nat n / 100)"
    by simp
  have body: "Sscanf_f (s @ q @ CHR ''.'' # [d1, d2]) =
      float64_of_rat (if neg then - (of_nat n / 100) else of_nat n / 100)"
    if "scan_sign (s @ q @ CHR ''.'' # [d1, d2]) = (neg, q @ CHR ''.'' # [d1, d2])" for s neg
    using that qd(2) by (simp add: Sscanf_f_def tw dw dig val qv v1 v2)
  show ?thesis
  proof (cases "x < 0")
    case True
    have "scan_sign ([CHR ''-''] @ q @ CHR ''.'' # [d1, d2]) = (True, q @ CHR ''.'' # [d1, d2])"
      by (simp add: scan_sign_def)
    then have "Sscanf_f ([CHR ''-''] @ q @ CHR ''.'' # [d1, d2]) = float64_of_rat (- (of_nat n / 100))"
      using body [of "[CHR ''-'']" True] by simp
    moreover have "fmt_2f x = [CHR ''-''] @ q @ CHR ''.'' # [d1, d2]"
      using True by (simp add: fmt_2f_def Let_def n_def q_def d1_def d2_def)
    moreover have "round_2f x = - (of_nat n / 100)"
      using True n_int by (simp add: round_2f_def Let_def)
    ultimately show ?thesis by (simp only:)
  next
    case False
    obtain c cs where q: "q = c # cs" using qd(2) by (cases q) auto
    then have "is_digit c" using qd(1) by simp
    then have "c \<noteq> CHR ''-''" "c \<noteq> CHR ''+''" using not_digit_signs by auto
    then have "scan_sign ([] @ q @ CHR ''.'' # [d1, d2]) = (False, q @ CHR ''.'' # [d1, d2])"
      using q by (simp add: scan_sign_def)
    then have "Sscanf_f ([] @ q @ CHR ''.'' # [d1, d2]) = float64_of_rat (of_nat n / 100)"
      using body [of "[]" False] by simp
    moreover have "fmt_2f x = [] @ q @ CHR ''.'' # [d1, d2]"
      using False by (simp add: fmt_2f_def Let_def n_def q_def d1_def d2_def)
    moreover have "round_2f x = of_nat n / 100"
      using False n_int by (simp add: round_2f_def Let_def)
    ultimately show ?thesis by (simp only:)
  qed
qed

lemma Split_no_sep: "sep \<notin> set p \<Longrightarrow> Split p sep = [p]"
  by (induction p) auto

lemma Split_append_sep: "sep \<notin> set p \<Longrightarrow> Split (p @ sep # r) sep = p # Split r sep"
  by (induction p) auto

lemma Split_Join:
  "us \<noteq> [] \<Longrightarrow> \<forall>u \<in> set us. sep \<notin> set u \<Longrightarrow> Split (Join us [sep]) sep = us"
proof (induction us "[sep]" rule: Join.induct)
  case 1
  then show ?case by simp
next
  case (2 p)
  then show ?case by (simp add: Split_no_sep)
next
  case (3 p q ps)
  then show ?case by (simp add: Split_append_sep)
qed

lemma Join_eq_Nil: "Join us [sep] = [] \<longleftrightarrow> us = [] \<or> us = [[]]"
  by (induction us "[sep]" rule: Join.induct) auto

lemma Split_nonempty: "Split s sep \<noteq> []"
  by (induction s) (auto split: list.splits)

lemma parse_run_rows:
  assumes "RunData_Players (Run run) = p # rest"
  shows "map parse_data_row (run_rows pm run) =
    [\<lparr>Place = Place run,
      Run = \<lparr>RunData_ID = RunData_ID (Run run),
             RunData_Players =
               (if Player_Rel p = ''user'' \<and> Player_ID p \<noteq> []
                then [\<lparr>Player_Rel = ''user'', Player_ID = Player_ID p, Player_Name = []\<rparr>]
                else [\<lparr>Player_Rel = ''guest'', Player_ID = [],
                       Player_Name = (run_rows pm run ! 0) ! 2\<rparr>]),
             Times = \<lparr>Primary = primary_of (float64_of_rat (round_2f (PrimaryT (Times (Run run))))),
                      PrimaryT = float64_of_rat (round_2f (PrimaryT (Times (Run run))))\<rparr>,
             Videos =
               (if Join (video_uris (Run run)) ''|'' \<noteq> []
                then Some \<lparr>Links = map (\<lambda>link. \<lparr>URI = link\<rparr>)
                                  (Split (Join (video_uris (Run run)) ''|'') CHR ''|''),
                           RunVideos_Text = []\<rparr>
                else None),
             Comment = [],
             Date = Date (Run run),
             SubmitURL = SubmitURL (Run run),
             Values = []\<rparr>\<rparr>]"
  using assms
  by (simp add: run_rows_def parse_data_row_def Let_def Sscanf_d_fmt_d Sscanf_f_fmt_2f
      Split_nonempty)

lemma run_rows_no_players: "RunData_Players (Run run) = [] \<Longrightarrow> run_rows pm run = []"
  by (simp add: run_rows_def)

lemma map_URI_Links: "map (URI \<circ> (\<lambda>link. \<lparr>URI = link\<rparr>)) us = us"
  by (induction us) auto

lemma reload_fields:
  assumes "RunData_Players (Run run) \<noteq> []"
  shows "\<exists>run'. map parse_data_row (run_rows pm run) = [run'] \<and>
     Place run' = Place run \<and>
     RunData_ID (Run run') = RunData_ID (Run run) \<and>
     PrimaryT (Times (Run run')) = float64_of_rat (round_2f (PrimaryT (Times (Run run)))) \<and>
     Primary (Times (Run run')) = primary_of (PrimaryT (Times (Run run'))) \<and>
     (Player_Rel (hd (RunData_Players (Run run))) = ''user'' \<and>
      Player_ID (hd (RunData_Players (Run run))) \<noteq> [] \<longrightarrow>
        RunData_Players (Run run') =
          [\<lparr>Player_Rel = ''user'', Player_ID = Player_ID (hd (RunData_Players (Run run))),
            Player_Name = []\<rparr>]) \<and>
     ((\<forall>u \<in> set (video_uris (Run run)). CHR ''|'' \<notin> set u) \<and> video_uris (Run run) \<noteq> [[]] \<longrightarrow>
        video_uris (Run run') = video_uris (Run run))"
proof -
  obtain p rest where pr: "RunData_Players (Run run) = p # rest"
    using assms by (cases "RunData_Players (Run run)") auto
  note row = parse_run_rows [OF pr, of pm]
  have vid: "video_uris \<lparr>RunData_ID = i, RunData_Players = ps, Times = t,
        Videos = (if Join (video_uris (Run run)) ''|'' \<noteq> []
                then Some \<lparr>Links = map (\<lambda>link. \<lparr>URI = link\<rparr>)
                                  (Split (Join (video_uris (Run run)) ''|'') CHR ''|''),
                           RunVideos_Text = []\<rparr>
                else None),
        Comment = cm, Date = dt, SubmitURL = su, Values = vs\<rparr> = video_uris (Run run)"
    if "\<forall>u \<in> set (video_uris (Run run)). CHR ''|'' \<notin> set u" "video_uris (Run run) \<noteq> [[]]"
    for i ps t cm dt su vs
  proof (cases "video_uris (Run run) = []")
    case True
    then show ?thesis by (simp add: video_uris_def)
  next
    case False
    then have "Join (video_uris (Run run)) ''|'' \<noteq> []"
      using that(2) Join_eq_Nil [of "video_uris (Run run)" "CHR ''|''"] by simp
    moreover have "Split (Join (video_uris (Run run)) ''|'') CHR ''|'' = video_uris (Run run)"
      using Split_Join [OF False that(1)] by simp
    ultimately show ?thesis
      by (simp add: video_uris_def [of "\<lparr>RunData_ID = i, RunData_Players = ps, Times = t,
        Videos = Some \<lparr>Links = map (\<lambda>link. \<lparr>URI = link\<rparr>) (video_uris (Run run)),
                           RunVideos_Text = []\<rparr>,
        Comment = cm, Date = dt, SubmitURL = su, Values = vs\<rparr>"] map_URI_Links)
  qed
  define run' where "run' = hd (map parse_data_row (run_rows pm run))"
  have r': "run' = hd [\<lparr>Place = Place run,
      Run = \<lparr>RunData_ID = RunData_ID (Run run),
             RunData_Players =
               (if Player_Rel p = ''user'' \<and> Player_ID p \<noteq> []
                then [\<lparr>Player_Rel = ''user'', Player_ID = Player_ID p, Player_Name = []\<rparr>]
                else [\<lparr>Player_Rel = ''guest'', Player_ID = [],
                       Player_Name = (run_rows pm run ! 0) ! 2\<rparr>]),
             Times = \<lparr>Primary = primary_of (float64_of_rat (round_2f (PrimaryT (Times (Run run))))),
                      PrimaryT = float64_of_rat (round_2f (PrimaryT (Times (Run run))))\<rparr>,
             Videos =
               (if Join (video_uris (Run run)) ''|'' \<noteq> []
                then Some \<lparr>Links = map (\<lambda>link. \<lparr>URI = link\<rparr>)
                                  (Split (Join (video_uris (Run run)) ''|'') CHR ''|''),
                           RunVideos_Text = []\<rparr>
                else None),
             Comment = [],
             Date = Date (Run run),
             SubmitURL = SubmitURL (Run run),
             Values = []\<rparr>\<rparr>]"
    unfolding run'_def row ..
  have "map parse_data_row (run_rows pm run) = [run']"
    unfolding r' row by simp
  moreover have "Place run' = Place run" "RunData_ID (Run run') = RunData_ID (Run run)"
    "PrimaryT (Times (Run run')) = float64_of_rat (round_2f (PrimaryT (Times (Run run))))"
    "Primary (Times (Run run')) = primary_of (PrimaryT (Times (Run run')))"
    unfolding r' by simp_all
  moreover have "Player_Rel (hd (RunData_Players (Run run))) = ''user'' \<and>
      Player_ID (hd (RunData_Players (Run run))) \<noteq> [] \<longrightarrow>
        RunData_Players (Run run') =
          [\<lparr>Player_Rel = ''user'', Player_ID = Player_ID (hd (RunData_Players (Run run))),
            Player_Name = []\<rparr>]"
    unfolding r' using pr by simp
  moreover have "(\<forall>u \<in> set (video_uris (Run run)). CHR ''|'' \<notin> set u) \<and>
      video_uris (Run run) \<noteq> [[]] \<longrightarrow> video_uris (Run run') = video_uris (Run run)"
    unfolding r' using vid by (simp del: Join.simps)
  ultimately show ?thesis
    by (intro exI [of _ run'] conjI) assumption+
qed

lemma reload_run:
  assumes "RunData_Players (Run run) \<noteq> []"
  shows "\<exists>run'. map parse_data_row (run_rows pm run) = [run'] \<and> reloaded_as run run'"
  using reload_fields [OF assms, of pm] unfolding reloaded_as_def .

lemma list_all2_filter_concat:
  assumes "\<And>x. x \<in> set xs \<Longrightarrow> P x \<Longrightarrow> \<exists>y. g x = [y] \<and> R x y"
      and "\<And>x. x \<in> set xs \<Longrightarrow> \<not> P x \<Longrightarrow> g x = []"
  shows "list_all2 R (filter P xs) (concat (map g xs))"
  using assms
proof (induction xs)
  case Nil
  then show ?case by simp
next
  case (Cons x xs)
  have rest: "list_all2 R (filter P xs) (concat (map g xs))"
    using Cons by simp
  show ?case
  proof (cases "P x")
    case True
    then obtain y where "g x = [y]" "R x y" using Cons.prems(1) by fastforce
    then show ?thesis using True rest by simp
  next
    case False
    then have "g x = []" using Cons.prems(2) by simp
    then show ?thesis using False rest by simp
  qed
qed

lemma run_ops_write_records:
  "fold run_op (map (OpWriteRecord p) rs) (f(p \<mapsto> CsvRecords rs0)) = f(p \<mapsto> CsvRecords (rs0 @ rs))"
  by (induction rs arbitrary: rs0) auto

lemma run_ops_Save:
  assumes "mkdir_ok sys" "create_ok sys"
  shows "LeaderboardCache_Save sys lib c d =
      (None, [OpMkdirAll (LeaderboardCache_dir c), OpCreate (GetFileName c (Key d))] @
             map (OpWriteRecord (GetFileName c (Key d))) (save_records lib d))"
    and "run_ops (snd (LeaderboardCache_Save sys lib c d)) f =
      f(GetFileName c (Key d) \<mapsto> CsvRecords (save_records lib d))"
proof -
  show a: "LeaderboardCache_Save sys lib c d =
      (None, [OpMkdirAll (LeaderboardCache_dir c), OpCreate (GetFileName c (Key d))] @
             map (OpWriteRecord (GetFileName c (Key d))) (save_records lib d))"
    using assms by (simp add: LeaderboardCache_Save_def Let_def)
  show "run_ops (snd (LeaderboardCache_Save sys lib c d)) f =
      f(GetFileName c (Key d) \<mapsto> CsvRecords (save_records lib d))"
    unfolding a run_ops_def
    using run_ops_write_records [of "GetFileName c (Key d)" "save_records lib d" f "[]"]
    by simp
qed

lemma load_records_Players:
  "load_records lib rs st = Inr st' \<Longrightarrow> Players st' = Players st"
proof (induction rs arbitrary: st)
  case Nil
  then show ?case by simp
next
  case (Cons r rs)
  then obtain st1 where s: "load_record lib r st = Inr st1" "load_records lib rs st1 = Inr st'"
    by (auto split: sum.splits)
  have "Players st1 = Players st"
    using s(1) by (auto simp: load_record_def split: if_splits)
  then show ?case using Cons.IH [OF s(2)] by simp
qed

subsection \<open>The round trip\<close>

lemma fmt_d_chars: "c \<in> set (fmt_d n) \<Longrightarrow> is_digit c \<or> c = CHR ''-''"
  using fmt_nat_digits by (auto simp: fmt_d_def split: if_splits)

lemma fmt_d_no_H: "CHR ''H'' \<notin> set (fmt_d n)"
  using fmt_d_chars [of "CHR ''H''" n] not_digit_signs by auto

lemma fmt_d_no_dot: "CHR ''.'' \<notin> set (fmt_d n)"
  using fmt_d_chars [of "CHR ''.''" n] not_digit_signs by auto

lemma primary_of_H: "CHR ''H'' \<in> set (primary_of t) \<longleftrightarrow> 0 < hours_of t"
  by (simp add: primary_of_def Let_def fmt_d_no_H)

lemma primary_of_dot: "CHR ''.'' \<in> set (primary_of t) \<longleftrightarrow> 0 < millis_of t"
  by (simp add: primary_of_def Let_def fmt_d_no_dot)

lemma Load_Save:
  assumes "mkdir_ok sys" "create_ok sys" "open_ok sys"
      and "GetFileName c key = GetFileName c (Key d)"
  shows "\<exists>result.
     LeaderboardCache_Load sys lib c key
       (run_ops (snd (LeaderboardCache_Save sys lib c d)) f) = Inr (Some result) \<and>
     Runs result = concat (map (\<lambda>run. map parse_data_row (run_rows (Players d) run)) (Runs d)) \<and>
     Players result = Map.empty"
proof -
  obtain result where r: "load_records lib (save_records lib d) (load_init key) = Inr result"
    and runs: "Runs result = map parse_data_row (concat (map (run_rows (Players d)) (Runs d)))"
    using load_save_records by blast
  have "Players result = Players (load_init key)"
    using load_records_Players [OF r] .
  then have pl: "Players result = Map.empty" by (simp add: load_init_def)
  have "LeaderboardCache_Load sys lib c key
       (run_ops (snd (LeaderboardCache_Save sys lib c d)) f) = Inr (Some result)"
    using assms r by (simp add: run_ops_Save(2) LeaderboardCache_Load_def)
  moreover have "Runs result =
      concat (map (\<lambda>run. map parse_data_row (run_rows (Players d) run)) (Runs d))"
    using runs by (simp add: map_concat comp_def)
  ultimately show ?thesis using pl by blast
qed

theorem C2_Load_Save_roundtrip:
  assumes "mkdir_ok sys" "create_ok sys" "open_ok sys"
      and "GetFileName c key = GetFileName c (Key d)"
  shows "\<exists>result.
     LeaderboardCache_Load sys lib c key
       (run_ops (snd (LeaderboardCache_Save sys lib c d)) f) = Inr (Some result) \<and>
     list_all2 reloaded_as
       (filter (\<lambda>run. RunData_Players (Run run) \<noteq> []) (Runs d))
       (Runs result) \<and>
     (\<forall>t. (CHR ''H'' \<in> set (primary_of t) \<longleftrightarrow> 0 < hours_of t) \<and>
          (CHR ''.'' \<in> set (primary_of t) \<longleftrightarrow> 0 < millis_of t))"
proof -
  obtain result where
    l: "LeaderboardCache_Load sys lib c key
       (run_ops (snd (LeaderboardCache_Save sys lib c d)) f) = Inr (Some result)"
    and runs: "Runs result =
       concat (map (\<lambda>run. map parse_data_row (run_rows (Players d) run)) (Runs d))"
    using Load_Save [OF assms] by blast
  have "list_all2 reloaded_as
       (filter (\<lambda>run. RunData_Players (Run run) \<noteq> []) (Runs d))
       (concat (map (\<lambda>run. map parse_data_row (run_rows (Players d) run)) (Runs d)))"
  proof (rule list_all2_filter_concat)
    fix run assume "run \<in> set (Runs d)" and p: "RunData_Players (Run run) \<noteq> []"
    from reload_run [OF p, of "Players d"]
    show "\<exists>run'. map parse_data_row (run_rows (Players d) run) = [run'] \<and> reloaded_as run run'" .
  next
    fix run assume "run \<in> set (Runs d)" and "\<not> RunData_Players (Run run) \<noteq> []"
    then show "map parse_data_row (run_rows (Players d) run) = []"
      by (simp add: run_rows_no_players)
  qed
  then have "list_all2 reloaded_as
       (filter (\<lambda>run. RunData_Players (Run run) \<noteq> []) (Runs d)) (Runs result)"
    using runs by simp
  moreover have "\<forall>t. (CHR ''H'' \<in> set (primary_of t) \<longleftrightarrow> 0 < hours_of t) \<and>
          (CHR ''.'' \<in> set (primary_of t) \<longleftrightarrow> 0 < millis_of t)"
    using primary_of_H primary_of_dot by simp
  ultimately show ?thesis using l by (intro exI [of _ result] conjI) assumption+
qed

subsection \<open>The example snapshot, saved and loaded\<close>

lemma example_times:
  "example_time1 = 1639415817479127 / 1099511627776"
  "example_time2 = 6611877989258887 / 4398046511104"
  unfolding example_time1_def example_time2_def by code_simp+

lemma example_floats:
  "float64_of_rat (round_2f (1639415817479127 / 1099511627776)) = 1639415817479127 / 1099511627776"
  "float64_of_rat (round_2f (6611877989258887 / 4398046511104)) = 1652972795849605 / 1099511627776"
  by code_simp+

lemma example_parts:
  "hours_of (1639415817479127 / 1099511627776) = 0"
  "minutes_of (1639415817479127 / 1099511627776) = 24"
  "seconds_of (1639415817479127 / 1099511627776) = 51"
  "millis_of (1639415817479127 / 1099511627776) = 3"
  by code_simp+

lemma digit_char_numeral:
  "digit_char 0 = CHR ''0''" "digit_char 1 = CHR ''1''" "digit_char 2 = CHR ''2''"
  "digit_char 3 = CHR ''3''" "digit_char 4 = CHR ''4''" "digit_char 5 = CHR ''5''"
  "digit_char 6 = CHR ''6''" "digit_char 7 = CHR ''7''" "digit_char 8 = CHR ''8''"
  "digit_char 9 = CHR ''9''" "digit_char (Suc 0) = CHR ''1''"
  by (simp_all add: digit_char_def char_of_def bit_iff_odd)

lemma example_primary: "primary_of (1639415817479127 / 1099511627776) = ''PT24M51.3S''"
  by (simp add: primary_of_def example_parts fmt_d_def fmt_nat.simps digit_char_numeral)

lemma example_reload:
  "\<exists>result.
     example_reloaded = Inr (Some result) \<and>
     map Place (Runs result) = [1, 2] \<and>
     map (\<lambda>run. RunData_ID (Run run)) (Runs result) = [''mr5p4e2y'', ''zq1x7k3m''] \<and>
     map (\<lambda>run. PrimaryT (Times (Run run))) (Runs result) =
       [1639415817479127 / 1099511627776, 1652972795849605 / 1099511627776] \<and>
     map (\<lambda>run. Primary (Times (Run run))) (Runs result) =
       [primary_of (1639415817479127 / 1099511627776),
        primary_of (1652972795849605 / 1099511627776)] \<and>
     Players result = Map.empty"
proof -
  have ok: "mkdir_ok all_ok" "create_ok all_ok" "open_ok all_ok"
    by (simp_all add: all_ok_def)
  have same: "GetFileName example_cache example_key = GetFileName example_cache (Key example_snapshot)"
    by (simp add: example_snapshot_def)
  obtain result where
    l: "LeaderboardCache_Load all_ok example_std example_cache example_key
       (run_ops (snd (LeaderboardCache_Save all_ok example_std example_cache example_snapshot))
          Map.empty) = Inr (Some result)"
    and runs: "Runs result =
       concat (map (\<lambda>run. map parse_data_row (run_rows (Players example_snapshot) run))
         (Runs example_snapshot))"
    and pl: "Players result = Map.empty"
    using Load_Save [OF ok same] by blast
  have p1: "RunData_Players (Run example_run1) =
      \<lparr>Player_Rel = ''user'', Player_ID = ''8rpk9dgj'', Player_Name = []\<rparr> # []"
    by (simp add: example_run1_def)
  have p2: "RunData_Players (Run example_run2) =
      \<lparr>Player_Rel = ''guest'', Player_ID = [], Player_Name = ''Ann''\<rparr> # []"
    by (simp add: example_run2_def)
  have t1: "PrimaryT (Times (Run example_run1)) = 1639415817479127 / 1099511627776"
    by (simp add: example_run1_def example_times)
  have t2: "PrimaryT (Times (Run example_run2)) = 6611877989258887 / 4398046511104"
    by (simp add: example_run2_def example_times)
  have r: "Runs result =
      map parse_data_row (run_rows (Players example_snapshot) example_run1) @
      map parse_data_row (run_rows (Players example_snapshot) example_run2)"
    unfolding runs by (simp add: example_snapshot_def)
  show ?thesis
    unfolding example_reloaded_def l
    apply (intro exI [of _ result] conjI refl)
    unfolding r parse_run_rows [OF p1] parse_run_rows [OF p2] t1 t2 example_floats
    by (simp_all add: example_run1_def example_run2_def pl)
qed

lemma example_reloaded_times:
  "map_option run_times (loaded_runs example_reloaded) =
     Some [1639415817479127 / 1099511627776, 1652972795849605 / 1099511627776]"
proof -
  from example_reload obtain result where l: "example_reloaded = Inr (Some result)"
    and t: "map (\<lambda>run. PrimaryT (Times (Run run))) (Runs result) =
       [1639415817479127 / 1099511627776, 1652972795849605 / 1099511627776]"
    by (elim exE conjE) (rule that; assumption)
  show ?thesis
    unfolding l loaded_runs_def run_times_def using t by simp
qed

lemma example_reloaded_primary:
  "map_option (map (\<lambda>run. Primary (Times (Run run)))) (loaded_runs example_reloaded) =
     Some [''PT24M51.3S'', primary_of (1652972795849605 / 1099511627776)]"
proof -
  from example_reload obtain result where l: "example_reloaded = Inr (Some result)"
    and t: "map (\<lambda>run. Primary (Times (Run run))) (Runs result) =
       [primary_of (1639415817479127 / 1099511627776),
        primary_of (1652972795849605 / 1099511627776)]"
    by (elim exE conjE) (rule that; assumption)
  show ?thesis
    unfolding l loaded_runs_def using t by (simp add: example_primary)
qed

lemma example_reloaded_players: "loaded_player example_reloaded playerID = None"
proof -
  from example_reload obtain result where l: "example_reloaded = Inr (Some result)"
    and t: "Players result = Map.empty"
    by (elim exE conjE) (rule that; assumption)
  show ?thesis
    unfolding l loaded_player_def using t by simp
qed

lemma example_snapshot_times:
  "run_times (Runs example_snapshot) =
     [1639415817479127 / 1099511627776, 6611877989258887 / 4398046511104]"
  by (simp add: run_times_def example_snapshot_def example_run1_def example_run2_def example_times)

theorem C2_Load_Save_roundtrip_witness:
  "mkdir_ok all_ok \<and> create_ok all_ok \<and> open_ok all_ok \<and>
   GetFileName example_cache example_key = GetFileName example_cache (Key example_snapshot) \<and>
   (\<exists>result. example_reloaded = Inr (Some result) \<and>
      map Place (Runs result) = [1, 2] \<and>
      map (\<lambda>run. RunData_ID (Run run)) (Runs result) = [''mr5p4e2y'', ''zq1x7k3m''] \<and>
      run_times (Runs result) =
        [1639415817479127 / 1099511627776, 1652972795849605 / 1099511627776] \<and>
      RunData_Players (Run (hd (Runs result))) =
        [\<lparr>Player_Rel = ''user'', Player_ID = ''8rpk9dgj'', Player_Name = []\<rparr>] \<and>
      video_uris (Run (hd (Runs result))) = [''https://www.youtube.com/watch?v=0fT1lHHQ0xs''])"
proof -
  have ok: "mkdir_ok all_ok" "create_ok all_ok" "open_ok all_ok"
    by (simp_all add: all_ok_def)
  have same: "GetFileName example_cache example_key = GetFileName example_cache (Key example_snapshot)"
    by (simp add: example_snapshot_def)
  have persisted: "filter (\<lambda>run. RunData_Players (Run run) \<noteq> []) (Runs example_snapshot) =
      [example_run1, example_run2]"
    by (simp add: example_snapshot_def example_run1_def example_run2_def)
  note th = C2_Load_Save_roundtrip [OF ok same, of example_std Map.empty,
      folded example_reloaded_def, unfolded persisted]
  from th obtain result where l: "example_reloaded = Inr (Some result)"
    and la: "list_all2 reloaded_as [example_run1, example_run2] (Runs result)"
    by (elim exE conjE) (rule that; assumption)
  from la obtain a b where runs: "Runs result = [a, b]"
    and ra: "reloaded_as example_run1 a" and rb: "reloaded_as example_run2 b"
    by (auto simp: list_all2_Cons1)
  note a = ra [unfolded reloaded_as_def, THEN conjunct1]
    ra [unfolded reloaded_as_def, THEN conjunct2, THEN conjunct1]
    ra [unfolded reloaded_as_def, THEN conjunct2, THEN conjunct2, THEN conjunct1]
    ra [unfolded reloaded_as_def, THEN conjunct2, THEN conjunct2, THEN conjunct2, THEN conjunct2,
        THEN conjunct1]
    ra [unfolded reloaded_as_def, THEN conjunct2, THEN conjunct2, THEN conjunct2, THEN conjunct2,
        THEN conjunct2]
  note b = rb [unfolded reloaded_as_def, THEN conjunct1]
    rb [unfolded reloaded_as_def, THEN conjunct2, THEN conjunct1]
    rb [unfolded reloaded_as_def, THEN conjunct2, THEN conjunct2, THEN conjunct1]
  have "map Place (Runs result) = [1, 2]"
    using runs a(1) b(1) by (simp add: example_run1_def example_run2_def)
  moreover have "map (\<lambda>run. RunData_ID (Run run)) (Runs result) = [''mr5p4e2y'', ''zq1x7k3m'']"
    using runs a(2) b(2) by (simp add: example_run1_def example_run2_def)
  moreover have "run_times (Runs result) =
        [1639415817479127 / 1099511627776, 1652972795849605 / 1099511627776]"
    using runs a(3) b(3)
    by (simp add: run_times_def example_run1_def example_run2_def example_times example_floats)
  moreover have "RunData_Players (Run (hd (Runs result))) =
        [\<lparr>Player_Rel = ''user'', Player_ID = ''8rpk9dgj'', Player_Name = []\<rparr>]"
    using runs a(4) by (simp add: example_run1_def)
  moreover have "video_uris (Run (hd (Runs result))) = [''https://www.youtube.com/watch?v=0fT1lHHQ0xs'']"
    using runs a(5) by (simp add: example_run1_def video_uris_def)
  ultimately have "\<exists>result. example_reloaded = Inr (Some result) \<and>
      map Place (Runs result) = [1, 2] \<and>
      map (\<lambda>run. RunData_ID (Run run)) (Runs result) = [''mr5p4e2y'', ''zq1x7k3m''] \<and>
      run_times (Runs result) =
        [1639415817479127 / 1099511627776, 1652972795849605 / 1099511627776] \<and>
      RunData_Players (Run (hd (Runs result))) =
        [\<lparr>Player_Rel = ''user'', Player_ID = ''8rpk9dgj'', Player_Name = []\<rparr>] \<and>
      video_uris (Run (hd (Runs result))) = [''https://www.youtube.com/watch?v=0fT1lHHQ0xs'']"
    using l by (intro exI [of _ result] conjI) assumption+
  then show ?thesis using ok same by (intro conjI) assumption+
qed

theorem C2_elapsed_seconds_counterexample:
  "map_option run_times (loaded_runs example_reloaded) =
     Some [1639415817479127 / 1099511627776, 1652972795849605 / 1099511627776] \<and>
   run_times (Runs example_snapshot) =
     [1639415817479127 / 1099511627776, 6611877989258887 / 4398046511104] \<and>
   map_option run_times (loaded_runs example_reloaded) \<noteq> Some (run_times (Runs example_snapshot))"
  unfolding example_reloaded_times example_snapshot_times by simp

lemma run_rows_length: "row \<in> set (run_rows pm run) \<Longrightarrow> length row = 8"
  by (auto simp: run_rows_def Let_def split: list.splits)

theorem C3_Save_header_and_rows:
  "save_records lib d =
     [[''#META'', ''VERSION'', ''1''],
      [''#GAME'', GameID (Key d), GameName (Key d)],
      [''#CATEGORY'', CategoryID (Key d), CategoryName (Key d)],
      [''#CACHED_AT'', Format_RFC3339 lib (CachedAt_of d)]] @
     map (\<lambda>(key, v). [''#VARIABLE'', key, v]) (Variables (Key d)) @
     [[''rank'', ''player_id'', ''player_name'', ''time_seconds'',
       ''date'', ''submit_url'', ''run_id'', ''video_links'']] @
     concat (map (run_rows (Players d)) (Runs d)) \<and>
   (\<forall>row \<in> set (concat (map (run_rows (Players d)) (Runs d))). length row = 8) \<and>
   (mkdir_ok sys \<and> create_ok sys \<and> open_ok sys \<and>
    GetFileName c key = GetFileName c (Key d) \<longrightarrow>
      (\<exists>result.
         LeaderboardCache_Load sys lib c key
           (run_ops (snd (LeaderboardCache_Save sys lib c d)) f) = Inr (Some result) \<and>
         Players result = Map.empty))"
proof (intro conjI impI)
  show "save_records lib d =
     [[''#META'', ''VERSION'', ''1''],
      [''#GAME'', GameID (Key d), GameName (Key d)],
      [''#CATEGORY'', CategoryID (Key d), CategoryName (Key d)],
      [''#CACHED_AT'', Format_RFC3339 lib (CachedAt_of d)]] @
     map (\<lambda>(key, v). [''#VARIABLE'', key, v]) (Variables (Key d)) @
     [[''rank'', ''player_id'', ''player_name'', ''time_seconds'',
       ''date'', ''submit_url'', ''run_id'', ''video_links'']] @
     concat (map (run_rows (Players d)) (Runs d))"
    by (simp add: save_records_def header_row_def)
next
  show "\<forall>row \<in> set (concat (map (run_rows (Players d)) (Runs d))). length row = 8"
    using run_rows_length by auto
next
  assume a: "mkdir_ok sys \<and> create_ok sys \<and> open_ok sys \<and>
    GetFileName c key = GetFileName c (Key d)"
  then have "mkdir_ok sys" "create_ok sys" "open_ok sys"
    "GetFileName c key = GetFileName c (Key d)" by simp_all
  from Load_Save [OF this, of lib f]
  show "\<exists>result.
         LeaderboardCache_Load sys lib c key
           (run_ops (snd (LeaderboardCache_Save sys lib c d)) f) = Inr (Some result) \<and>
         Players result = Map.empty"
    by (elim exE conjE) (intro exI conjI, assumption+)
qed

lemma example_file_name:
  "GetFileName example_cache example_key = ''.cache/o1y9j9v6_7kjpl1gk_e8m7em86=9qj7z0oq.csv''"
  by (simp add: GetFileName_def filepath_Join_def FileName_def String_def example_cache_def
      example_key_def index_gomap_def sort_outer.simps sort_inner.simps)

theorem C3_Save_header_and_rows_witness:
  "mkdir_ok all_ok \<and> create_ok all_ok \<and> open_ok all_ok \<and>
   GetFileName example_cache example_key = GetFileName example_cache (Key example_snapshot) \<and>
   save_records example_std example_snapshot ! 5 =
     [''rank'', ''player_id'', ''player_name'', ''time_seconds'',
      ''date'', ''submit_url'', ''run_id'', ''video_links''] \<and>
   (\<exists>result. example_reloaded = Inr (Some result) \<and> Players result = Map.empty)"
proof -
  have ok1: "mkdir_ok all_ok" and ok2: "create_ok all_ok" and ok3: "open_ok all_ok"
    and same: "GetFileName example_cache example_key = GetFileName example_cache (Key example_snapshot)"
    by (simp_all add: all_ok_def example_snapshot_def)
  have ok: "mkdir_ok all_ok \<and> create_ok all_ok \<and> open_ok all_ok \<and>
      GetFileName example_cache example_key = GetFileName example_cache (Key example_snapshot)"
    using ok1 ok2 ok3 same by (intro conjI)
  note th = C3_Save_header_and_rows [of example_std example_snapshot all_ok example_cache
      example_key Map.empty, folded example_reloaded_def]
  have "save_records example_std example_snapshot ! 5 =
     [''rank'', ''player_id'', ''player_name'', ''time_seconds'',
      ''date'', ''submit_url'', ''run_id'', ''video_links'']"
    by (subst th [THEN conjunct1]) (simp add: example_snapshot_def example_key_def)
  moreover have "\<exists>result. example_reloaded = Inr (Some result) \<and> Players result = Map.empty"
    using th [THEN conjunct2, THEN conjunct2] ok by (rule mp)
  ultimately show ?thesis using ok1 ok2 ok3 same by (intro conjI)
qed

lemma claimed_header_absent:
  "[''rank'', ''player_id'', ''player_name'', ''country_code'', ''time_seconds'', ''date'',
    ''submit_url'', ''run_id'', ''video_links''] \<notin> set (save_records lib d)"
proof -
  have "length row \<noteq> 9" if "row \<in> set (save_records lib d)" for row
    using that run_rows_length [of row]
    by (auto simp: save_records_def header_row_def)
  then show ?thesis by fastforce
qed

theorem C3_country_code_counterexample:
  "[''rank'', ''player_id'', ''player_name'', ''country_code'', ''time_seconds'', ''date'',
    ''submit_url'', ''run_id'', ''video_links'']
     \<notin> set (save_records example_std example_snapshot) \<and>
   Players example_snapshot ''8rpk9dgj'' = Some example_player \<and>
   PlayerData_Location example_player = Some \<lparr>Country = Some ''us''\<rparr> \<and>
   loaded_player example_reloaded ''8rpk9dgj'' = None"
  using claimed_header_absent [of example_std example_snapshot]
  by (simp add: example_reloaded_players example_snapshot_def example_player_def)

lemma tmp_neq: "p @ ''.tmp'' \<noteq> p"
  by simp

theorem C7_Save_writes:
  "(\<not> dirty c \<longrightarrow> Save sys c = (None, c, [])) \<and>
   (dirty c \<and> marshal_ok sys \<and> write_ok sys \<and> rename_ok sys \<longrightarrow>
      Save sys c =
        (None, c\<lparr>dirty := False\<rparr>,
         [OpWriteFile (filePath c @ ''.tmp'') (PlayersJson (players c)),
          OpRename (filePath c @ ''.tmp'') (filePath c)])) \<and>
   (run_ops (snd (snd (Save sys c))) f (filePath c) = f (filePath c) \<or>
    run_ops (snd (snd (Save sys c))) f (filePath c) = Some (PlayersJson (players c))) \<and>
   (dirty (fst (snd (Save sys c))) \<longleftrightarrow> dirty c \<and> fst (Save sys c) \<noteq> None) \<and>
   (mkdir_ok sys \<and> create_ok sys \<longrightarrow>
      LeaderboardCache_Save sys lib lc d =
        (None,
         [OpMkdirAll (LeaderboardCache_dir lc), OpCreate (GetFileName lc (Key d))] @
         map (OpWriteRecord (GetFileName lc (Key d))) (save_records lib d)))"
proof (intro conjI impI)
  show "Save sys c = (None, c, [])" if "\<not> dirty c"
    using that by (simp add: Save_def)
  show "Save sys c =
        (None, c\<lparr>dirty := False\<rparr>,
         [OpWriteFile (filePath c @ ''.tmp'') (PlayersJson (players c)),
          OpRename (filePath c @ ''.tmp'') (filePath c)])"
    if "dirty c \<and> marshal_ok sys \<and> write_ok sys \<and> rename_ok sys"
    using that by (simp add: Save_def Let_def)
  show "run_ops (snd (snd (Save sys c))) f (filePath c) = f (filePath c) \<or>
    run_ops (snd (snd (Save sys c))) f (filePath c) = Some (PlayersJson (players c))"
    by (simp add: Save_def Let_def run_ops_def)
  show "dirty (fst (snd (Save sys c))) \<longleftrightarrow> dirty c \<and> fst (Save sys c) \<noteq> None"
    by (simp add: Save_def Let_def)
  show "LeaderboardCache_Save sys lib lc d =
        (None,
         [OpMkdirAll (LeaderboardCache_dir lc), OpCreate (GetFileName lc (Key d))] @
         map (OpWriteRecord (GetFileName lc (Key d))) (save_records lib d))"
    if "mkdir_ok sys \<and> create_ok sys"
    using that by (simp add: LeaderboardCache_Save_def Let_def)
qed

theorem C7_Save_writes_witness:
  "dirty example_player_cache \<and> marshal_ok all_ok \<and> write_ok all_ok \<and> rename_ok all_ok \<and>
   mkdir_ok all_ok \<and> create_ok all_ok \<and>
   Save all_ok example_player_cache =
     (None, example_player_cache\<lparr>dirty := False\<rparr>,
      [OpWriteFile ''.cache/players.json.tmp'' (PlayersJson (players example_player_cache)),
       OpRename ''.cache/players.json.tmp'' ''.cache/players.json'']) \<and>
   \<not> dirty (example_player_cache\<lparr>dirty := False\<rparr>) \<and>
   Save all_ok (example_player_cache\<lparr>dirty := False\<rparr>) =
     (None, example_player_cache\<lparr>dirty := False\<rparr>, []) \<and>
   LeaderboardCache_Save all_ok example_std example_cache example_snapshot =
     (None,
      [OpMkdirAll ''.cache'', OpCreate ''.cache/o1y9j9v6_7kjpl1gk_e8m7em86=9qj7z0oq.csv''] @
      map (OpWriteRecord ''.cache/o1y9j9v6_7kjpl1gk_e8m7em86=9qj7z0oq.csv'')
        (save_records example_std example_snapshot))"
proof -
  have h0: "dirty example_player_cache" "marshal_ok all_ok" "write_ok all_ok" "rename_ok all_ok"
    "mkdir_ok all_ok" "create_ok all_ok"
    by (simp_all add: example_player_cache_def all_ok_def)
  have h: "dirty example_player_cache \<and> marshal_ok all_ok \<and> write_ok all_ok \<and> rename_ok all_ok"
    "mkdir_ok all_ok \<and> create_ok all_ok"
    "\<not> dirty (example_player_cache\<lparr>dirty := False\<rparr>)"
    by (simp_all add: example_player_cache_def all_ok_def)
  have fp: "filePath example_player_cache = ''.cache/players.json''"
    by (simp add: filePath_def filepath_Join_def cacheFileName_def example_player_cache_def)
  have fn: "GetFileName example_cache (Key example_snapshot) =
      ''.cache/o1y9j9v6_7kjpl1gk_e8m7em86=9qj7z0oq.csv''"
    using example_file_name by (simp add: example_snapshot_def)
  note t1 = C7_Save_writes [of example_player_cache all_ok Map.empty example_std example_cache
      example_snapshot]
  note t2 = C7_Save_writes [of "example_player_cache\<lparr>dirty := False\<rparr>" all_ok Map.empty
      example_std example_cache example_snapshot]
  have a: "Save all_ok example_player_cache =
     (None, example_player_cache\<lparr>dirty := False\<rparr>,
      [OpWriteFile ''.cache/players.json.tmp'' (PlayersJson (players example_player_cache)),
       OpRename ''.cache/players.json.tmp'' ''.cache/players.json''])"
    using t1 [THEN conjunct2, THEN conjunct1] h(1) fp by simp
  have b: "Save all_ok (example_player_cache\<lparr>dirty := False\<rparr>) =
     (None, example_player_cache\<lparr>dirty := False\<rparr>, [])"
    using t2 [THEN conjunct1] h(3) by simp
  have c: "LeaderboardCache_Save all_ok example_std example_cache example_snapshot =
     (None,
      [OpMkdirAll ''.cache'', OpCreate ''.cache/o1y9j9v6_7kjpl1gk_e8m7em86=9qj7z0oq.csv''] @
      map (OpWriteRecord ''.cache/o1y9j9v6_7kjpl1gk_e8m7em86=9qj7z0oq.csv'')
        (save_records example_std example_snapshot))"
    using t1 [THEN conjunct2, THEN conjunct2, THEN conjunct2, THEN conjunct2] h(2)
    unfolding fn by (simp add: example_cache_def)
  show ?thesis
    using h0 h(3) a b c by (intro conjI)
qed

lemma filter_is_rename_writes: "filter is_rename (map (OpWriteRecord p) rs) = []"
  by (induction rs) auto

theorem C7_leaderboard_in_place_counterexample:
  "snd (LeaderboardCache_Save all_ok example_std example_cache example_snapshot) =
     OpMkdirAll ''.cache'' #
     OpCreate ''.cache/o1y9j9v6_7kjpl1gk_e8m7em86=9qj7z0oq.csv'' #
     map (OpWriteRecord ''.cache/o1y9j9v6_7kjpl1gk_e8m7em86=9qj7z0oq.csv'')
       (save_records example_std example_snapshot) \<and>
   filter is_rename (snd (LeaderboardCache_Save all_ok example_std example_cache example_snapshot))
     = []"
proof -
  have fn: "GetFileName example_cache (Key example_snapshot) =
      ''.cache/o1y9j9v6_7kjpl1gk_e8m7em86=9qj7z0oq.csv''"
    using example_file_name by (simp add: example_snapshot_def)
  have a: "snd (LeaderboardCache_Save all_ok example_std example_cache example_snapshot) =
     OpMkdirAll ''.cache'' #
     OpCreate ''.cache/o1y9j9v6_7kjpl1gk_e8m7em86=9qj7z0oq.csv'' #
     map (OpWriteRecord ''.cache/o1y9j9v6_7kjpl1gk_e8m7em86=9qj7z0oq.csv'')
       (save_records example_std example_snapshot)"
    by (simp add: LeaderboardCache_Save_def Let_def all_ok_def fn) (simp add: example_cache_def)
  show ?thesis unfolding a by (simp add: filter_is_rename_writes)
qed

lemma Since_plain:
  assumes "minDuration \<le> d" "d < maxDuration"
  shows "d < Since now t \<longleftrightarrow> d < now - t"
  using assms by (auto simp: Since_def Sub_def)

theorem C6_Get_ttl:
  "(fst (Get c now playerID) = None \<longleftrightarrow>
      players c playerID = None \<or>
      (\<exists>item. players c playerID = Some item \<and> ttl c < Since now (CachedAt item))) \<and>
   snd (Get c now playerID) = c \<and>
   (minDuration \<le> ttl c \<and> ttl c < maxDuration \<longrightarrow>
      (fst (Get c now playerID) = None \<longleftrightarrow>
         players c playerID = None \<or>
         (\<exists>item. players c playerID = Some item \<and> ttl c < now - CachedAt item)) \<and>
      (\<forall>item. players c playerID = Some item \<and> CachedAt item = now - ttl c - Second \<longrightarrow>
         fst (Get c now playerID) = None) \<and>
      (\<forall>item. players c playerID = Some item \<and> CachedAt item = now - ttl c + Second \<longrightarrow>
         fst (Get c now playerID) = Some (Data item)))"
proof (intro conjI impI allI)
  show g: "fst (Get c now playerID) = None \<longleftrightarrow>
      players c playerID = None \<or>
      (\<exists>item. players c playerID = Some item \<and> ttl c < Since now (CachedAt item))"
    by (auto simp: Get_def split: option.splits)
  show "snd (Get c now playerID) = c"
    by (simp add: Get_def split: option.splits)
  assume r: "minDuration \<le> ttl c \<and> ttl c < maxDuration"
  then have s: "ttl c < Since now t \<longleftrightarrow> ttl c < now - t" for t
    using Since_plain by simp
  show "fst (Get c now playerID) = None \<longleftrightarrow>
         players c playerID = None \<or>
         (\<exists>item. players c playerID = Some item \<and> ttl c < now - CachedAt item)"
    unfolding g s ..
  show "fst (Get c now playerID) = None"
    if "players c playerID = Some item \<and> CachedAt item = now - ttl c - Second" for item
    using that by (simp add: Get_def s Second_def)
  show "fst (Get c now playerID) = Some (Data item)"
    if "players c playerID = Some item \<and> CachedAt item = now - ttl c + Second" for item
    using that by (simp add: Get_def s Second_def)
qed

theorem C6_Get_ttl_witness:
  "minDuration \<le> ttl ttl_cache \<and> ttl ttl_cache < maxDuration \<and>
   players ttl_cache ''old'' = Some stale_item \<and>
   CachedAt stale_item = example_now - ttl ttl_cache - Second \<and>
   players ttl_cache ''new'' = Some fresh_item \<and>
   CachedAt fresh_item = example_now - ttl ttl_cache + Second \<and>
   Get ttl_cache example_now ''old'' = (None, ttl_cache) \<and>
   Get ttl_cache example_now ''new'' = (Some example_player, ttl_cache) \<and>
   Get ttl_cache example_now ''absent'' = (None, ttl_cache)"
proof -
  have r: "minDuration \<le> ttl ttl_cache \<and> ttl ttl_cache < maxDuration"
    by (simp add: ttl_cache_def DefaultTTL_def Second_def minDuration_def maxDuration_def)
  have o: "players ttl_cache ''old'' = Some stale_item \<and>
      CachedAt stale_item = example_now - ttl ttl_cache - Second"
    by (simp add: ttl_cache_def stale_item_def)
  have n: "players ttl_cache ''new'' = Some fresh_item \<and>
      CachedAt fresh_item = example_now - ttl ttl_cache + Second"
    by (simp add: ttl_cache_def fresh_item_def)
  have ab: "players ttl_cache ''absent'' = None"
    by (simp add: ttl_cache_def)
  note t_old = C6_Get_ttl [of ttl_cache example_now "''old''"]
  note t_new = C6_Get_ttl [of ttl_cache example_now "''new''"]
  note t_abs = C6_Get_ttl [of ttl_cache example_now "''absent''"]
  have "fst (Get ttl_cache example_now ''old'') = None"
    using t_old [THEN conjunct2, THEN conjunct2, rule_format, OF r, THEN conjunct2,
        THEN conjunct1, rule_format, OF o] .
  then have a: "Get ttl_cache example_now ''old'' = (None, ttl_cache)"
    using t_old [THEN conjunct2, THEN conjunct1] by (simp add: prod_eq_iff)
  have "fst (Get ttl_cache example_now ''new'') = Some (Data fresh_item)"
    using t_new [THEN conjunct2, THEN conjunct2, rule_format, OF r, THEN conjunct2,
        THEN conjunct2, rule_format, OF n] .
  then have b: "Get ttl_cache example_now ''new'' = (Some example_player, ttl_cache)"
    using t_new [THEN conjunct2, THEN conjunct1] by (simp add: prod_eq_iff fresh_item_def)
  have "fst (Get ttl_cache example_now ''absent'') = None"
    using t_abs [THEN conjunct1] ab by simp
  then have c: "Get ttl_cache example_now ''absent'' = (None, ttl_cache)"
    using t_abs [THEN conjunct2, THEN conjunct1] by (simp add: prod_eq_iff)
  show ?thesis
    using r [THEN conjunct1] r [THEN conjunct2] o [THEN conjunct1] o [THEN conjunct2]
      n [THEN conjunct1] n [THEN conjunct2] a b c
    by (intro conjI)
qed

end
